theory Spec2Isabelle
  imports Main "HOL-Library.AList"
begin

section \<open>Data model\<close>

text \<open>
  Byte strings (Python \<open>bytes\<close>) and text (Python \<open>str\<close>) are both lists of
  characters. The gateway only slices, compares and concatenates them.
\<close>

type_synonym bytes = string

text \<open>
  A decoded JSON document, as \<open>json.loads\<close> returns it: \<open>None\<close>, \<open>bool\<close>,
  \<open>int\<close>, \<open>float\<close>, \<open>str\<close>, \<open>list\<close> and \<open>dict\<close>. A Python \<open>dict\<close> keeps the
  insertion order of its keys, so it is an association list: \<open>AList.update\<close> is
  \<open>d[k] = v\<close> (in place when the key exists, appended otherwise), \<open>AList.delete\<close>
  is \<open>del d[k]\<close>, \<open>map_of\<close> is the lookup. A float is carried by the text that
  \<open>json.dumps\<close> writes for it (its \<open>repr\<close>): the gateway stores and forwards floats
  and never computes with them.
\<close>

type_synonym pyfloat = string

datatype json =
    JNull
  | JBool bool
  | JInt int
  | JFloat pyfloat
  | JStr string
  | JArr "json list"
  | JObj "(string \<times> json) list"

type_synonym dict = "(string \<times> json) list"

text \<open>The exceptions that the patching code can raise on a decoded document.\<close>

datatype py_error = AttributeError | IndexError | KeyError | TypeError

text \<open>Sequencing of steps that may raise: the first exception ends the computation.\<close>

definition then_do :: "'e + 'a \<Rightarrow> ('a \<Rightarrow> 'e + 'b) \<Rightarrow> 'e + 'b" where
  "then_do m f = (case m of Inl e \<Rightarrow> Inl e | Inr x \<Rightarrow> f x)"

section \<open>Python operations used by the service\<close>

text \<open>\<open>d.get(k)\<close> on a dict: the value, or \<open>None\<close> when the key is absent.\<close>

definition dict_get :: "dict \<Rightarrow> string \<Rightarrow> json" where
  "dict_get d k = (case map_of d k of None \<Rightarrow> JNull | Some v \<Rightarrow> v)"

text \<open>\<open>x in (None, "")\<close>: only \<open>None\<close> and the empty string compare equal to a member.\<close>

definition none_or_empty :: "json \<Rightarrow> bool" where
  "none_or_empty x = (x = JNull \<or> x = JStr [])"

text \<open>\<open>x.get(k, default)\<close> on any decoded value: only a dict has the method.\<close>

definition py_get :: "json \<Rightarrow> string \<Rightarrow> json \<Rightarrow> py_error + json" where
  "py_get x k dflt =
     (case x of
        JObj kvs \<Rightarrow> Inr (case map_of kvs k of None \<Rightarrow> dflt | Some v \<Rightarrow> v)
      | _ \<Rightarrow> Inl AttributeError)"

text \<open>
  \<open>x[0]\<close>: the first element of a list, the first character of a string; a dict has no
  key \<open>0\<close> (JSON keys are strings); the other values are not subscriptable.
\<close>

definition py_index0 :: "json \<Rightarrow> py_error + json" where
  "py_index0 x =
     (case x of
        JArr xs \<Rightarrow> (case xs of [] \<Rightarrow> Inl IndexError | y # _ \<Rightarrow> Inr y)
      | JStr s \<Rightarrow> (case s of [] \<Rightarrow> Inl IndexError | c # _ \<Rightarrow> Inr (JStr [c]))
      | JObj _ \<Rightarrow> Inl KeyError
      | _ \<Rightarrow> Inl TypeError)"

text \<open>\<open>for c in x\<close>: list elements, dict keys, the characters of a string.\<close>

definition py_iter :: "json \<Rightarrow> py_error + json list" where
  "py_iter x =
     (case x of
        JArr xs \<Rightarrow> Inr xs
      | JObj kvs \<Rightarrow> Inr (map (\<lambda>(k, v). JStr k) kvs)
      | JStr s \<Rightarrow> Inr (map (\<lambda>c. JStr [c]) s)
      | _ \<Rightarrow> Inl TypeError)"

text \<open>\<open>s.startswith(p)\<close> and \<open>p in s\<close> on strings.\<close>

definition starts_with :: "string \<Rightarrow> string \<Rightarrow> bool" where
  "starts_with s p = (take (length p) s = p)"

fun is_substring :: "string \<Rightarrow> string \<Rightarrow> bool" where
  "is_substring p [] = (p = [])"
| "is_substring p (c # cs) = (starts_with (c # cs) p \<or> is_substring p cs)"

text \<open>
  \<open>k in x\<close> for a string \<open>k\<close>: a key of a dict, an element of a list, a substring of a
  string; the other values are not containers.
\<close>

definition py_contains :: "json \<Rightarrow> string \<Rightarrow> py_error + bool" where
  "py_contains x k =
     (case x of
        JObj kvs \<Rightarrow> Inr (k \<in> fst ` set kvs)
      | JArr xs \<Rightarrow> Inr (JStr k \<in> set xs)
      | JStr s \<Rightarrow> Inr (is_substring k s)
      | _ \<Rightarrow> Inl TypeError)"

text \<open>\<open>bool(x)\<close>.\<close>

definition truthy :: "json \<Rightarrow> bool" where
  "truthy x =
     (case x of
        JNull \<Rightarrow> False
      | JBool b \<Rightarrow> b
      | JInt i \<Rightarrow> i \<noteq> 0
      | JFloat r \<Rightarrow> r \<noteq> ''0.0'' \<and> r \<noteq> ''-0.0''
      | JStr s \<Rightarrow> s \<noteq> []
      | JArr xs \<Rightarrow> xs \<noteq> []
      | JObj kvs \<Rightarrow> kvs \<noteq> [])"

text \<open>\<open>d.setdefault(k, v)\<close>: stores \<open>v\<close> only when the key is absent.\<close>

definition setdefault :: "dict \<Rightarrow> string \<Rightarrow> json \<Rightarrow> dict" where
  "setdefault d k v = (case map_of d k of None \<Rightarrow> AList.update k v d | Some _ \<Rightarrow> d)"

text \<open>
  A dict comprehension over \<open>(key, value)\<close> items: a key that occurs again keeps its
  first position and takes the later value.
\<close>

definition dict_of_items :: "(string \<times> 'v) list \<Rightarrow> (string \<times> 'v) list" where
  "dict_of_items kvs = foldl (\<lambda>d (k, v). AList.update k v d) [] kvs"

text \<open>
  \<open>str.lower()\<close>, on the ASCII letters. (Python also lowers the letters beyond ASCII,
  to letters beyond ASCII; the names and the media type that the service compares with
  are ASCII.)
\<close>

definition lower_char :: "char \<Rightarrow> char" where
  "lower_char c =
     (case map_of (zip ''ABCDEFGHIJKLMNOPQRSTUVWXYZ'' ''abcdefghijklmnopqrstuvwxyz'') c of
        None \<Rightarrow> c
      | Some l \<Rightarrow> l)"

definition lower :: "string \<Rightarrow> string" where
  "lower s = map lower_char s"

text \<open>The line feed, and the SSE frame delimiter \<open>b"\n\n"\<close>.\<close>

definition nl :: char where
  "nl = CHR 0x0A"

definition nn :: bytes where
  "nn = [nl, nl]"

text \<open>\<open>bytes.strip()\<close>: ASCII white space is removed at both ends.\<close>

definition is_space :: "char \<Rightarrow> bool" where
  "is_space c = (c \<in> set [CHR 0x20, CHR 0x09, CHR 0x0A, CHR 0x0B, CHR 0x0C, CHR 0x0D])"

definition strip :: "bytes \<Rightarrow> bytes" where
  "strip s = rev (dropWhile is_space (rev (dropWhile is_space s)))"

text \<open>
  \<open>chunk.split(b"\n\n")\<close>: the pieces between the occurrences of the delimiter, found
  from the left and not overlapping. There is always a last piece: the bytes after the
  last delimiter, empty when the chunk ends with one.
\<close>

fun split_nn :: "bytes \<Rightarrow> bytes list" where
  "split_nn [] = [[]]"
| "split_nn [a] = [[a]]"
| "split_nn (a # b # rest) =
     (if a = nl \<and> b = nl then [] # split_nn rest
      else (case split_nn (b # rest) of
              [] \<Rightarrow> [[a]]
            | p # ps \<Rightarrow> (a # p) # ps))"

section \<open>Field Patcher\<close>

text \<open>
  \<open>_patch_reasoning_in_message\<close> (the second definition of the module, which is the one
  in force; the first has the same body). The dict is mutated in place; the model returns
  the dict after the call.
\<close>

definition patch_reasoning_in_message :: "dict \<Rightarrow> dict" where
  "patch_reasoning_in_message msg =
     (if dict_get msg ''reasoning_content'' = JNull then msg
      else
        let msg1 = (if none_or_empty (dict_get msg ''content'')
                    then AList.update ''content'' (dict_get msg ''reasoning_content'') msg
                    else msg)
        in AList.delete ''reasoning_content'' msg1)"

section \<open>Non-streaming bodies\<close>

text \<open>
  \<open>json.loads\<close> and \<open>json.dumps(...).encode()\<close> belong to the Python library, so the
  service functions take them as parameters: \<open>loads b = None\<close> stands for any
  exception of \<open>json.loads(b)\<close>.

  One pass of the loop of \<open>_patch_reasoning_in_json_bytes\<close>: the choice must be a
  dict; its message, when there is one, must be a dict and is patched in place; without a
  message a fresh empty dict is patched and dropped.
\<close>

definition patch_choice :: "json \<Rightarrow> py_error + json" where
  "patch_choice choice =
     (case choice of
        JObj ckvs \<Rightarrow>
          (case map_of ckvs ''message'' of
             None \<Rightarrow> Inr choice
           | Some m \<Rightarrow>
               (case m of
                  JObj msg \<Rightarrow>
                    Inr (JObj (AList.update ''message'' (JObj (patch_reasoning_in_message msg)) ckvs))
                | _ \<Rightarrow> Inl AttributeError))
      | _ \<Rightarrow> Inl AttributeError)"

fun patch_choices :: "json list \<Rightarrow> py_error + json list" where
  "patch_choices [] = Inr []"
| "patch_choices (c # cs) =
     then_do (patch_choice c) (\<lambda>c'. then_do (patch_choices cs) (\<lambda>cs'. Inr (c' # cs')))"

text \<open>
  The decoded body after the loop. Only a list of choices holds dicts that the loop can
  change; iterating a dict or a string yields strings, on which \<open>.get\<close> raises.
\<close>

definition patch_data :: "json \<Rightarrow> py_error + json" where
  "patch_data data =
     then_do (py_get data ''choices'' (JArr [])) (\<lambda>choices.
       case (data, choices) of
         (JObj kvs, JArr cs) \<Rightarrow>
           then_do (patch_choices cs) (\<lambda>cs'.
             Inr (if map_of kvs ''choices'' = None then data
                  else JObj (AList.update ''choices'' (JArr cs') kvs)))
       | _ \<Rightarrow>
           then_do (py_iter choices) (\<lambda>items.
             then_do (patch_choices items) (\<lambda>_. Inr data)))"

definition patch_reasoning_in_json_bytes ::
  "(bytes \<Rightarrow> json option) \<Rightarrow> (json \<Rightarrow> bytes) \<Rightarrow> bytes \<Rightarrow> bytes" where
  "patch_reasoning_in_json_bytes loads dumps body =
     (case loads body of
        None \<Rightarrow> body
      | Some data \<Rightarrow>
          (case patch_data data of
             Inl exc \<Rightarrow> body
           | Inr data' \<Rightarrow> dumps data'))"

section \<open>SSE Frame Splitter/Rejoiner\<close>

text \<open>
  Lines 94 to 98 of \<open>_stream_patch\<close>, on the delta. On a list or a string that
  contains \<open>reasoning_content\<close> both branches raise: \<open>list.pop\<close> wants an integer, and
  neither type has \<open>.get\<close> (a string that contains \<open>reasoning_content\<close> contains
  \<open>content\<close>).
\<close>

definition patch_delta :: "json \<Rightarrow> py_error + json" where
  "patch_delta delta =
     then_do (py_contains delta ''reasoning_content'') (\<lambda>has_reasoning.
       if \<not> has_reasoning then Inr delta
       else
         (case delta of
            JObj d \<Rightarrow>
              if ''content'' \<notin> fst ` set d \<or> none_or_empty (dict_get d ''content'')
              then Inr (JObj (AList.update ''content'' (dict_get d ''reasoning_content'')
                               (AList.delete ''reasoning_content'' d)))
              else Inr (JObj (AList.delete ''reasoning_content'' d))
          | JArr xs \<Rightarrow>
              if JStr ''content'' \<notin> set xs then Inl TypeError else Inl AttributeError
          | _ \<Rightarrow> Inl AttributeError))"

text \<open>
  Line 99, \<open>obj["choices"][0]["delta"] = delta\<close>: the key \<open>choices\<close> must exist (the
  default of line 93 is not stored in \<open>obj\<close>), and its first element must be a dict.
\<close>

definition store_delta :: "json \<Rightarrow> json \<Rightarrow> py_error + json" where
  "store_delta obj delta =
     (case obj of
        JObj kvs \<Rightarrow>
          (case map_of kvs ''choices'' of
             None \<Rightarrow> Inl KeyError
           | Some choices \<Rightarrow>
               then_do (py_index0 choices) (\<lambda>first.
                 case (choices, first) of
                   (JArr cs, JObj c0) \<Rightarrow>
                     Inr (JObj (AList.update ''choices''
                                  (JArr (JObj (AList.update ''delta'' delta c0) # tl cs)) kvs))
                 | _ \<Rightarrow> Inl TypeError))
      | _ \<Rightarrow> Inl TypeError)"

text \<open>Lines 93 to 99: the decoded event after patching, or the exception raised.\<close>

definition patch_sse_obj :: "json \<Rightarrow> py_error + json" where
  "patch_sse_obj obj =
     then_do (py_get obj ''choices'' (JArr [JObj []])) (\<lambda>choices.
     then_do (py_index0 choices) (\<lambda>first.
     then_do (py_get first ''delta'' (JObj [])) (\<lambda>delta.
     then_do (patch_delta delta) (\<lambda>delta'.
       store_delta obj delta'))))"

text \<open>
  The body of the inner loop for one piece of the chunk: the bytes it yields, or the
  exception that leaves the loop. An exception of \<open>json.loads\<close> is caught on the spot.
\<close>

definition patch_event ::
  "(bytes \<Rightarrow> json option) \<Rightarrow> (json \<Rightarrow> bytes) \<Rightarrow> bytes \<Rightarrow> py_error + bytes" where
  "patch_event loads dumps event =
     (if \<not> starts_with event ''data:'' then Inr (event @ nn)
      else
        let payload = strip (drop 5 event) in
        if payload = ''[DONE]'' then Inr (event @ nn)
        else
          (case loads payload of
             None \<Rightarrow> Inr (event @ nn)
           | Some obj \<Rightarrow>
               then_do (patch_sse_obj obj) (\<lambda>obj'.
                 Inr (''data: '' @ dumps obj' @ nn))))"

text \<open>
  The inner loop: what has been yielded, and the exception that ended the loop early, if
  any.
\<close>

fun patch_events ::
  "(bytes \<Rightarrow> json option) \<Rightarrow> (json \<Rightarrow> bytes) \<Rightarrow> bytes list \<Rightarrow> bytes list \<times> py_error option" where
  "patch_events loads dumps [] = ([], None)"
| "patch_events loads dumps (e # es) =
     (case patch_event loads dumps e of
        Inl exc \<Rightarrow> ([], Some exc)
      | Inr y \<Rightarrow>
          (case patch_events loads dumps es of (ys, r) \<Rightarrow> (y # ys, r)))"

text \<open>
  One pass of the outer loop: the handler of the outer \<open>try\<close> yields the whole chunk
  after whatever the inner loop had yielded.
\<close>

definition patch_chunk ::
  "(bytes \<Rightarrow> json option) \<Rightarrow> (json \<Rightarrow> bytes) \<Rightarrow> bytes \<Rightarrow> bytes list" where
  "patch_chunk loads dumps chunk =
     (case patch_events loads dumps (split_nn chunk) of
        (ys, None) \<Rightarrow> ys
      | (ys, Some exc) \<Rightarrow> ys @ [chunk])"

text \<open>\<open>_stream_patch\<close>: the byte strings yielded, in order, for the chunks received.\<close>

definition stream_patch ::
  "(bytes \<Rightarrow> json option) \<Rightarrow> (json \<Rightarrow> bytes) \<Rightarrow> bytes list \<Rightarrow> bytes list" where
  "stream_patch loads dumps gen = concat (map (patch_chunk loads dumps) gen)"

section \<open>Backend response handler\<close>

text \<open>
  The backend response as the handler reads it: the status, the header items
  (\<open>response.headers.items()\<close>, where httpx gives each name once, in lower case), and
  the body as the chunks of \<open>aiter_bytes()\<close>; \<open>aread()\<close> is their concatenation. The
  model covers bodies that arrive completely.
\<close>

record backend_response =
  status_code :: nat
  resp_headers :: "(string \<times> string) list"
  resp_chunks :: "bytes list"

text \<open>
  The detail of an \<open>HTTPException\<close>: a fixed text, or \<open>b.decode(errors="ignore")\<close> of the
  bytes \<open>b\<close>.
\<close>

datatype detail = Text string | Decoded_ignore bytes

datatype http_exception = HTTPException nat detail

record streaming_response =
  sr_status_code :: nat
  sr_media_type :: string
  sr_headers :: "(string \<times> string) list"
  sr_body :: "bytes list"

definition header_get :: "(string \<times> string) list \<Rightarrow> string \<Rightarrow> string \<Rightarrow> string" where
  "header_get hs k dflt = (case map_of hs k of None \<Rightarrow> dflt | Some v \<Rightarrow> v)"

definition response_excluded :: "string list" where
  "response_excluded =
     [''content-length'', ''transfer-encoding'', ''connection'', ''content-encoding'']"

definition safe_headers :: "(string \<times> string) list \<Rightarrow> (string \<times> string) list" where
  "safe_headers hs =
     dict_of_items (filter (\<lambda>(k, v). lower k \<notin> set response_excluded) hs)"

definition handle_backend_response ::
  "(bytes \<Rightarrow> json option) \<Rightarrow> (json \<Rightarrow> bytes) \<Rightarrow> backend_response \<Rightarrow> bool
     \<Rightarrow> http_exception + streaming_response" where
  "handle_backend_response loads dumps response is_streaming_request =
     (if is_streaming_request then
        (if status_code response \<noteq> 200
         then Inl (HTTPException (status_code response)
                     (Decoded_ignore (concat (resp_chunks response))))
         else Inr \<lparr> sr_status_code = status_code response,
                    sr_media_type =
                      header_get (resp_headers response) ''content-type'' ''text/event-stream'',
                    sr_headers = safe_headers (resp_headers response),
                    sr_body = stream_patch loads dumps (resp_chunks response) \<rparr>)
      else
        let response_content = concat (resp_chunks response) in
        if status_code response \<ge> 400
        then Inr \<lparr> sr_status_code = status_code response,
                   sr_media_type =
                     header_get (resp_headers response) ''content-type'' ''application/json'',
                   sr_headers = safe_headers (resp_headers response),
                   sr_body = [response_content] \<rparr>
        else Inr \<lparr> sr_status_code = status_code response,
                   sr_media_type =
                     header_get (resp_headers response) ''content-type'' ''application/json'',
                   sr_headers = safe_headers (resp_headers response),
                   sr_body = [patch_reasoning_in_json_bytes loads dumps response_content] \<rparr>)"

section \<open>Request forwarders\<close>

record settings =
  VLLM_BASE_URL :: string
  VLLM_CHAT_COMPLETIONS_ENDPOINT :: string
  DEFAULT_TEMPERATURE :: pyfloat
  DEFAULT_TOP_P :: pyfloat
  DEFAULT_TOP_K :: int
  DEFAULT_PRESENCE_PENALTY :: pyfloat

text \<open>The values of \<open>Settings\<close> when the environment sets none.\<close>

definition default_settings :: settings where
  "default_settings =
     \<lparr> VLLM_BASE_URL = ''http://localhost:10001'',
       VLLM_CHAT_COMPLETIONS_ENDPOINT = ''/v1/chat/completions'',
       DEFAULT_TEMPERATURE = ''0.7'',
       DEFAULT_TOP_P = ''0.8'',
       DEFAULT_TOP_K = 20,
       DEFAULT_PRESENCE_PENALTY = ''1.5'' \<rparr>"

text \<open>
  What is handed to \<open>client.build_request\<close> and \<open>client.send\<close>: the method, the URL,
  the headers argument, the body (\<open>json=\<close> or \<open>content=\<close>) and the \<open>stream\<close> flag.
\<close>

datatype request_content = Json_payload dict | Content "bytes option"

record outbound_request =
  out_method :: string
  out_url :: string
  out_headers :: "(string \<times> string) list"
  out_content :: request_content
  out_stream :: bool

text \<open>
  The outcome of \<open>build_request\<close> and \<open>send\<close>: an \<open>httpx.TimeoutException\<close>, another
  \<open>httpx.RequestError\<close> (\<open>ConnectError\<close> is one), or the response. The backend is a
  function from the request sent to this outcome. Each forwarder returns its result
  together with the list of the requests that it sent to the backend.
\<close>

datatype send_outcome = TimeoutException | RequestError | Response backend_response

text \<open>
  A validated \<open>ChatCompletionRequest\<close> as the forwarder uses it: the attribute
  \<open>model\<close>, and the dict that \<open>model_dump(exclude_unset=True)\<close> returns, which holds the
  fields that the caller has set, extra fields included, and no others.
\<close>

record chat_completion_request =
  model :: string
  model_dump_exclude_unset :: dict

definition chat_payload :: "settings \<Rightarrow> chat_completion_request \<Rightarrow> dict" where
  "chat_payload st original_chat_request =
     (let p0 = model_dump_exclude_unset original_chat_request;
          p1 = AList.update ''chat_template_kwargs'' (JObj [(''enable_thinking'', JBool False)]) p0;
          p2 = setdefault p1 ''temperature'' (JFloat (DEFAULT_TEMPERATURE st));
          p3 = setdefault p2 ''top_p'' (JFloat (DEFAULT_TOP_P st));
          p4 = setdefault p3 ''top_k'' (JInt (DEFAULT_TOP_K st));
          p5 = setdefault p4 ''presence_penalty'' (JFloat (DEFAULT_PRESENCE_PENALTY st))
      in setdefault p5 ''model'' (JStr (model original_chat_request)))"

definition chat_outbound_request :: "settings \<Rightarrow> chat_completion_request \<Rightarrow> outbound_request" where
  "chat_outbound_request st original_chat_request =
     (let payload = chat_payload st original_chat_request;
          is_stream = truthy (dict_get payload ''stream'')
      in \<lparr> out_method = ''POST'',
           out_url = VLLM_BASE_URL st @ VLLM_CHAT_COMPLETIONS_ENDPOINT st,
           out_headers = [],
           out_content = Json_payload payload,
           out_stream = is_stream \<rparr>)"

definition forward_chat_completion_request_to_vllm ::
  "settings \<Rightarrow> (bytes \<Rightarrow> json option) \<Rightarrow> (json \<Rightarrow> bytes) \<Rightarrow> (outbound_request \<Rightarrow> send_outcome)
     \<Rightarrow> chat_completion_request
     \<Rightarrow> (http_exception + streaming_response) \<times> outbound_request list" where
  "forward_chat_completion_request_to_vllm st loads dumps backend original_chat_request =
     (let req = chat_outbound_request st original_chat_request in
      (case backend req of
         TimeoutException \<Rightarrow>
           (Inl (HTTPException 504
                   (Text ''Gateway timeout: backend LLM did not respond in time.'')), [req])
       | RequestError \<Rightarrow>
           (Inl (HTTPException 503 (Text ''Backend LLM service unreachable.'')), [req])
       | Response resp \<Rightarrow>
           (handle_backend_response loads dumps resp (out_stream req), [req])))"

text \<open>
  The inbound request of the generic route: \<open>request.headers.items()\<close> lists every
  header line received, so a name may occur more than once, and
  \<open>request.headers.get\<close> returns the first value of a name.
\<close>

record request =
  req_method :: string
  url_path :: string
  url_query :: string
  req_headers :: "(string \<times> string) list"
  req_body :: bytes

definition request_excluded :: "string list" where
  "request_excluded = [''host'', ''content-length'', ''transfer-encoding'', ''connection'']"

definition generic_outbound_request :: "settings \<Rightarrow> request \<Rightarrow> outbound_request" where
  "generic_outbound_request st request =
     (let path_and_query =
            url_path request @ (if url_query request \<noteq> [] then ''?'' @ url_query request else []);
          target_url = VLLM_BASE_URL st @ path_and_query;
          headers = dict_of_items
                      (filter (\<lambda>(k, v). lower k \<notin> set request_excluded) (req_headers request));
          body = req_body request
      in \<lparr> out_method = req_method request,
           out_url = target_url,
           out_headers = headers,
           out_content = Content (if body \<noteq> [] then Some body else None),
           out_stream = True \<rparr>)"

definition expect_stream :: "request \<Rightarrow> bool" where
  "expect_stream request =
     is_substring ''text/event-stream'' (lower (header_get (req_headers request) ''accept'' []))"

definition forward_generic_request_to_vllm ::
  "settings \<Rightarrow> (bytes \<Rightarrow> json option) \<Rightarrow> (json \<Rightarrow> bytes) \<Rightarrow> (outbound_request \<Rightarrow> send_outcome)
     \<Rightarrow> request
     \<Rightarrow> (http_exception + streaming_response) \<times> outbound_request list" where
  "forward_generic_request_to_vllm st loads dumps backend request =
     (let req = generic_outbound_request st request in
      (case backend req of
         TimeoutException \<Rightarrow>
           (Inl (HTTPException 504
                   (Text ''Gateway timeout: backend LLM did not respond in time.'')), [req])
       | RequestError \<Rightarrow>
           (Inl (HTTPException 503 (Text ''Backend LLM service unreachable.'')), [req])
       | Response resp \<Rightarrow>
           (handle_backend_response loads dumps resp (expect_stream request), [req])))"

section \<open>A JSON codec for evaluation\<close>

text \<open>
  The theorems below hold for every \<open>loads\<close> and \<open>dumps\<close>. To run the service
  functions on concrete bytes, this section gives a decoder and an encoder for the part
  of JSON that the examples use: objects, arrays, strings of printable ASCII without
  escapes, integers, \<open>true\<close>, \<open>false\<close>, \<open>null\<close> and white space. On that part
  \<open>json_loads\<close> agrees with \<open>json.loads\<close>, and \<open>json_dumps\<close> writes what
  \<open>json.dumps\<close> writes (separators \<open>", "\<close> and \<open>": "\<close>, non-printable characters
  escaped). String escapes, characters beyond ASCII and float literals in the input are
  outside it: there \<open>json_loads\<close> answers \<open>None\<close>, and no example relies on that.
\<close>

definition is_json_ws :: "char \<Rightarrow> bool" where
  "is_json_ws c = (c = CHR 0x20 \<or> c = CHR 0x09 \<or> c = CHR 0x0A \<or> c = CHR 0x0D)"

definition skip_ws :: "string \<Rightarrow> string" where
  "skip_ws s = dropWhile is_json_ws s"

definition is_digit :: "char \<Rightarrow> bool" where
  "is_digit c = ((48::nat) \<le> of_char c \<and> of_char c \<le> (57::nat))"

text \<open>The characters of a string after its opening quote, and what follows the closing one.\<close>

fun scan_string :: "string \<Rightarrow> (string \<times> string) option" where
  "scan_string [] = None"
| "scan_string (c # cs) =
     (if c = CHR 0x22 then Some ([], cs)
      else if c = CHR 0x5C \<or> of_char c < (0x20::nat) \<or> (0x80::nat) \<le> of_char c then None
      else (case scan_string cs of None \<Rightarrow> None | Some (s, r) \<Rightarrow> Some (c # s, r)))"

definition digits_value :: "string \<Rightarrow> nat" where
  "digits_value ds = foldl (\<lambda>n c. 10 * n + (of_char c - 48)) 0 ds"

definition scan_int :: "string \<Rightarrow> (json \<times> string) option" where
  "scan_int s =
     (let neg = (s \<noteq> [] \<and> hd s = CHR ''-'');
          s1 = (if neg then tl s else s);
          ds = takeWhile is_digit s1;
          r = dropWhile is_digit s1
      in if ds = [] \<or> (hd ds = CHR ''0'' \<and> length ds > 1) then None
         else if r \<noteq> [] \<and> (hd r = CHR ''.'' \<or> hd r = CHR ''e'' \<or> hd r = CHR ''E'') then None
         else Some (JInt (if neg then - int (digits_value ds) else int (digits_value ds)), r))"

text \<open>
  Recursive descent; the first argument bounds the nesting depth, and the length of the
  input is always enough.
\<close>

fun parse_value :: "nat \<Rightarrow> string \<Rightarrow> (json \<times> string) option"
and parse_elements :: "nat \<Rightarrow> string \<Rightarrow> (json list \<times> string) option"
and parse_members :: "nat \<Rightarrow> string \<Rightarrow> ((string \<times> json) list \<times> string) option"
where
  "parse_value 0 s = None"
| "parse_value (Suc n) s =
     (case s of
        [] \<Rightarrow> None
      | c # r \<Rightarrow>
          if c = CHR 0x22 then
            (case scan_string r of None \<Rightarrow> None | Some (str, r1) \<Rightarrow> Some (JStr str, r1))
          else if c = CHR ''{'' then
            (case skip_ws r of
               [] \<Rightarrow> None
             | d # r1 \<Rightarrow>
                 if d = CHR ''}'' then Some (JObj [], r1)
                 else (case parse_members n (d # r1) of
                         None \<Rightarrow> None
                       | Some (kvs, r2) \<Rightarrow> Some (JObj (dict_of_items kvs), r2)))
          else if c = CHR ''['' then
            (case skip_ws r of
               [] \<Rightarrow> None
             | d # r1 \<Rightarrow>
                 if d = CHR '']'' then Some (JArr [], r1)
                 else (case parse_elements n (d # r1) of
                         None \<Rightarrow> None
                       | Some (xs, r2) \<Rightarrow> Some (JArr xs, r2)))
          else if starts_with s ''null'' then Some (JNull, drop 4 s)
          else if starts_with s ''true'' then Some (JBool True, drop 4 s)
          else if starts_with s ''false'' then Some (JBool False, drop 5 s)
          else scan_int s)"
| "parse_elements 0 s = None"
| "parse_elements (Suc n) s =
     (case parse_value n s of
        None \<Rightarrow> None
      | Some (x, r) \<Rightarrow>
          (case skip_ws r of
             [] \<Rightarrow> None
           | d # r1 \<Rightarrow>
               if d = CHR '']'' then Some ([x], r1)
               else if d = CHR '','' then
                 (case parse_elements n (skip_ws r1) of
                    None \<Rightarrow> None
                  | Some (xs, r2) \<Rightarrow> Some (x # xs, r2))
               else None))"
| "parse_members 0 s = None"
| "parse_members (Suc n) s =
     (case s of
        [] \<Rightarrow> None
      | q # r \<Rightarrow>
          if q \<noteq> CHR 0x22 then None
          else (case scan_string r of
                  None \<Rightarrow> None
                | Some (k, r1) \<Rightarrow>
                    (case skip_ws r1 of
                       [] \<Rightarrow> None
                     | c # r2 \<Rightarrow>
                         if c \<noteq> CHR '':'' then None
                         else (case parse_value n (skip_ws r2) of
                                 None \<Rightarrow> None
                               | Some (v, r3) \<Rightarrow>
                                   (case skip_ws r3 of
                                      [] \<Rightarrow> None
                                    | d # r4 \<Rightarrow>
                                        if d = CHR ''}'' then Some ([(k, v)], r4)
                                        else if d = CHR '','' then
                                          (case parse_members n (skip_ws r4) of
                                             None \<Rightarrow> None
                                           | Some (kvs, r5) \<Rightarrow> Some ((k, v) # kvs, r5))
                                        else None)))))"

definition json_loads :: "bytes \<Rightarrow> json option" where
  "json_loads b =
     (case parse_value (Suc (length b)) (skip_ws b) of
        None \<Rightarrow> None
      | Some (v, r) \<Rightarrow> if skip_ws r = [] then Some v else None)"

definition hex_digit :: "nat \<Rightarrow> char" where
  "hex_digit d = ''0123456789abcdef'' ! d"

function show_nat :: "nat \<Rightarrow> string" where
  "show_nat n =
     (if n < 10 then [hex_digit n] else show_nat (n div 10) @ [hex_digit (n mod 10)])"
  by pat_completeness auto
termination
  by (relation "measure id") auto

declare show_nat.simps [simp del]

definition show_int :: "int \<Rightarrow> string" where
  "show_int i = (if i < 0 then CHR ''-'' # show_nat (nat (- i)) else show_nat (nat i))"

definition escape_char :: "char \<Rightarrow> string" where
  "escape_char c =
     (if c = CHR 0x22 then [CHR 0x5C, CHR 0x22]
      else if c = CHR 0x5C then [CHR 0x5C, CHR 0x5C]
      else if c = CHR 0x0A then [CHR 0x5C, CHR ''n'']
      else if c = CHR 0x0D then [CHR 0x5C, CHR ''r'']
      else if c = CHR 0x09 then [CHR 0x5C, CHR ''t'']
      else if c = CHR 0x08 then [CHR 0x5C, CHR ''b'']
      else if c = CHR 0x0C then [CHR 0x5C, CHR ''f'']
      else if of_char c < (0x20::nat) \<or> (0x7E::nat) < of_char c
        then [CHR 0x5C, CHR ''u'', CHR ''0'', CHR ''0'',
              hex_digit (of_char c div 16), hex_digit (of_char c mod 16)]
      else [c])"

definition quote :: "string \<Rightarrow> string" where
  "quote s = CHR 0x22 # concat (map escape_char s) @ [CHR 0x22]"

fun join :: "string \<Rightarrow> string list \<Rightarrow> string" where
  "join sep [] = []"
| "join sep [x] = x"
| "join sep (x # y # ys) = x @ sep @ join sep (y # ys)"

fun json_dumps :: "json \<Rightarrow> bytes" where
  "json_dumps JNull = ''null''"
| "json_dumps (JBool b) = (if b then ''true'' else ''false'')"
| "json_dumps (JInt i) = show_int i"
| "json_dumps (JFloat r) = r"
| "json_dumps (JStr s) = quote s"
| "json_dumps (JArr xs) = ''['' @ join '', '' (map json_dumps xs) @ '']''"
| "json_dumps (JObj kvs) =
     ''{'' @ join '', '' (map (\<lambda>(k, v). quote k @ '': '' @ json_dumps v) kvs) @ ''}''"

section \<open>Notions used in the statements\<close>

text \<open>
  A chunk made of whole frames: every frame is followed by the delimiter.
\<close>

definition join_frames :: "bytes list \<Rightarrow> bytes" where
  "join_frames fs = concat (map (\<lambda>f. f @ nn) fs)"

text \<open>
  The number of frames of a byte stream that are closed by a delimiter.
\<close>

definition frame_count :: "bytes \<Rightarrow> nat" where
  "frame_count bs = length (split_nn bs) - 1"

text \<open>
  \<open>choices[0].delta\<close> of a decoded event, when the event is a dict, its \<open>choices\<close> a
  list that starts with a dict, and the \<open>delta\<close> of that dict a dict; and whether that
  delta has the key \<open>reasoning_content\<close>.
\<close>

definition sse_delta :: "json \<Rightarrow> dict option" where
  "sse_delta obj =
     (case obj of
        JObj kvs \<Rightarrow>
          (case map_of kvs ''choices'' of
             Some (JArr (JObj c0 # rest)) \<Rightarrow>
               (case map_of c0 ''delta'' of Some (JObj d) \<Rightarrow> Some d | _ \<Rightarrow> None)
           | _ \<Rightarrow> None)
      | _ \<Rightarrow> None)"

definition has_first_delta_reasoning :: "json \<Rightarrow> bool" where
  "has_first_delta_reasoning obj =
     (case sse_delta obj of None \<Rightarrow> False | Some d \<Rightarrow> ''reasoning_content'' \<in> fst ` set d)"

text \<open>
  Whether a decoded value carries the key \<open>reasoning_content\<close>, in any dict at any
  depth.
\<close>

fun carries_reasoning :: "json \<Rightarrow> bool" where
  "carries_reasoning (JObj kvs) =
     list_ex (\<lambda>(k, v). k = ''reasoning_content'' \<or> carries_reasoning v) kvs"
| "carries_reasoning (JArr xs) = list_ex carries_reasoning xs"
| "carries_reasoning _ = False"

text \<open>
  The event with \<open>choices[0].delta\<close> blanked, and the events in which
  \<open>reasoning_content\<close> is a key of \<open>choices[0].delta\<close> and occurs nowhere else: not in
  the other keys of that delta, not in the value of the key, and not in the rest of the
  event.
\<close>

definition blank_first_delta :: "json \<Rightarrow> json" where
  "blank_first_delta obj =
     (case obj of
        JObj kvs \<Rightarrow>
          (case map_of kvs ''choices'' of
             Some (JArr (JObj c0 # rest)) \<Rightarrow>
               JObj (AList.update ''choices''
                       (JArr (JObj (AList.update ''delta'' JNull c0) # rest)) kvs)
           | _ \<Rightarrow> obj)
      | _ \<Rightarrow> obj)"

definition reasoning_only_in_first_delta :: "json \<Rightarrow> bool" where
  "reasoning_only_in_first_delta obj =
     (case sse_delta obj of
        None \<Rightarrow> False
      | Some d \<Rightarrow>
          ''reasoning_content'' \<in> fst ` set d
          \<and> \<not> carries_reasoning (dict_get d ''reasoning_content'')
          \<and> \<not> carries_reasoning (JObj (AList.delete ''reasoning_content'' d))
          \<and> \<not> carries_reasoning (blank_first_delta obj))"

text \<open>
  The frames of the round-trip property: one \<open>data:\<close> line whose payload is the
  sentinel \<open>[DONE]\<close> or decodes to such an event.
\<close>

definition round_trip_frame :: "(bytes \<Rightarrow> json option) \<Rightarrow> bytes \<Rightarrow> bool" where
  "round_trip_frame loads f =
     (starts_with f ''data:'' \<and> nl \<notin> set f \<and>
      (strip (drop 5 f) = ''[DONE]'' \<or>
       (case loads (strip (drop 5 f)) of
          None \<Rightarrow> False
        | Some obj \<Rightarrow> reasoning_only_in_first_delta obj)))"

text \<open>
  What the round-trip property expects for such a frame: the sentinel frame comes out as
  it went in, with its delimiter; a data frame comes out as \<open>data: \<close>, the serialisation of
  the patched event, which carries \<open>reasoning_content\<close> nowhere, and the delimiter.
\<close>

definition patched_frame ::
  "(bytes \<Rightarrow> json option) \<Rightarrow> (json \<Rightarrow> bytes) \<Rightarrow> bytes \<Rightarrow> bytes \<Rightarrow> bool" where
  "patched_frame loads dumps f y =
     (if strip (drop 5 f) = ''[DONE]'' then y = f @ nn
      else
        (case loads (strip (drop 5 f)) of
           None \<Rightarrow> False
         | Some obj \<Rightarrow>
             (case patch_sse_obj obj of
                Inl exc \<Rightarrow> False
              | Inr obj' \<Rightarrow> \<not> carries_reasoning obj' \<and> y = ''data: '' @ dumps obj' @ nn)))"

text \<open>
  The keys that the chat forwarder writes into the outbound payload.
\<close>

definition injected_keys :: "string list" where
  "injected_keys = [''chat_template_kwargs'', ''temperature'', ''top_p'', ''top_k'',
                    ''presence_penalty'', ''model'']"

section \<open>Example inputs\<close>

text \<open>
  A stream of one data frame and the sentinel, the same stream cut inside the data frame,
  a frame with two choices and what the splitter makes of it, a frame whose payload is cut
  short, and a frame whose event has no choices.
\<close>

definition example_frame :: bytes where
  \<open>example_frame = ''data: {"choices": [{"delta": {"reasoning_content": "hi"}}]}''\<close>

definition example_patched_frame :: bytes where
  \<open>example_patched_frame = ''data: {"choices": [{"delta": {"content": "hi"}}]}''\<close>

definition done_frame :: bytes where
  "done_frame = ''data: [DONE]''"

definition example_stream :: bytes where
  "example_stream = example_frame @ nn @ done_frame @ nn"

definition example_chunk1 :: bytes where
  \<open>example_chunk1 = ''data: {"choices": [{"delta": {"reasoning''\<close>

definition example_rest :: bytes where
  \<open>example_rest = ''_content": "hi"}}]}''\<close>

definition two_choice_frame :: bytes where
  \<open>two_choice_frame = ''data: {"choices": [{"delta": {"reasoning_content": "a"}}, {"delta": {"reasoning_content": "b"}}]}''\<close>

definition two_choice_output :: bytes where
  \<open>two_choice_output = ''data: {"choices": [{"delta": {"content": "a"}}, {"delta": {"reasoning_content": "b"}}]}''\<close>

definition malformed_frame :: bytes where
  \<open>malformed_frame = ''data: {"choices": [{"delta": ''\<close>

definition short_frame :: bytes where
  \<open>short_frame = ''data: {"choices": [{"delta": {"content": "a"}}]}''\<close>

definition empty_choices_frame :: bytes where
  \<open>empty_choices_frame = ''data: {"choices": []}''\<close>

text \<open>
  Backend responses: a body that is not JSON, an error, and an error whose body would be
  changed by the patch.
\<close>

definition html_response :: backend_response where
  "html_response =
     \<lparr> status_code = 200,
       resp_headers = [(''content-type'', ''text/html'')],
       resp_chunks = [''<html>'', ''</html>''] \<rparr>"

definition oom_body :: bytes where
  \<open>oom_body = ''{"error":"oom"}''\<close>

definition error_response :: backend_response where
  "error_response =
     \<lparr> status_code = 500,
       resp_headers = [(''content-type'', ''application/json''), (''content-length'', ''15'')],
       resp_chunks = [oom_body] \<rparr>"

definition reasoning_body :: bytes where
  \<open>reasoning_body = ''{"choices": [{"message": {"content": "", "reasoning_content": "x"}}]}''\<close>

definition reasoning_error_response :: backend_response where
  "reasoning_error_response =
     \<lparr> status_code = 502, resp_headers = [], resp_chunks = [reasoning_body] \<rparr>"

text \<open>
  Inbound requests: a chat request that sets the temperature and nothing else optional,
  with the payload that is sent for it under the default settings, a generic request, and
  a generic request that repeats a header name.
\<close>

definition example_chat_request :: chat_completion_request where
  "example_chat_request =
     \<lparr> model = ''qwen3'',
       model_dump_exclude_unset =
         [(''model'', JStr ''qwen3''),
          (''messages'', JArr [JObj [(''role'', JStr ''user''), (''content'', JStr ''hi'')]]),
          (''temperature'', JFloat ''0.2'')] \<rparr>"

definition example_chat_payload :: dict where
  "example_chat_payload =
     [(''model'', JStr ''qwen3''),
      (''messages'', JArr [JObj [(''role'', JStr ''user''), (''content'', JStr ''hi'')]]),
      (''temperature'', JFloat ''0.2''),
      (''chat_template_kwargs'', JObj [(''enable_thinking'', JBool False)]),
      (''top_p'', JFloat ''0.8''),
      (''top_k'', JInt 20),
      (''presence_penalty'', JFloat ''1.5'')]"

definition models_request :: request where
  "models_request =
     \<lparr> req_method = ''GET'', url_path = ''/v1/models'', url_query = ''limit=5'',
       req_headers = [(''host'', ''gateway:8000''), (''accept'', ''Text/Event-Stream''),
                      (''authorization'', ''Bearer k''), (''connection'', ''keep-alive'')],
       req_body = [] \<rparr>"

definition repeated_header_request :: request where
  "repeated_header_request =
     \<lparr> req_method = ''GET'', url_path = ''/v1/models'', url_query = [],
       req_headers = [(''x-trace'', ''a''), (''x-trace'', ''b'')],
       req_body = [] \<rparr>"

section \<open>Field Patcher: properties\<close>

lemma map_of_patch_absent:
  "dict_get msg ''reasoning_content'' = JNull \<Longrightarrow> patch_reasoning_in_message msg = msg"
  by (simp add: patch_reasoning_in_message_def)

lemma map_of_patch_present:
  assumes "dict_get msg ''reasoning_content'' \<noteq> JNull"
  shows "map_of (patch_reasoning_in_message msg) =
           (if none_or_empty (dict_get msg ''content'')
            then (map_of msg)(''content'' \<mapsto> dict_get msg ''reasoning_content'',
                              ''reasoning_content'' := None)
            else (map_of msg)(''reasoning_content'' := None))"
  using assms
  by (simp add: patch_reasoning_in_message_def Let_def delete_conv' update_conv')

text \<open>
  C1. When \<open>reasoning_content\<close> is present and not null: the key is gone afterwards; if
  \<open>content\<close> was absent, null or the empty string it now holds the reasoning value, and
  otherwise it keeps its own value; every other key keeps its value. When
  \<open>reasoning_content\<close> is absent or null the message is returned as it was.
\<close>

theorem field_patcher_contract:
  "(\<forall>v. map_of msg ''reasoning_content'' = Some v \<and> v \<noteq> JNull \<longrightarrow>
        map_of (patch_reasoning_in_message msg) ''reasoning_content'' = None
      \<and> map_of (patch_reasoning_in_message msg) ''content'' =
          (if map_of msg ''content'' \<in> {None, Some JNull, Some (JStr [])}
           then Some v else map_of msg ''content'')
      \<and> (\<forall>k. k \<noteq> ''reasoning_content'' \<and> k \<noteq> ''content'' \<longrightarrow>
             map_of (patch_reasoning_in_message msg) k = map_of msg k))
   \<and> (map_of msg ''reasoning_content'' \<in> {None, Some JNull} \<longrightarrow>
        patch_reasoning_in_message msg = msg)"
proof (intro conjI allI impI)
  fix v
  assume v: "map_of msg ''reasoning_content'' = Some v \<and> v \<noteq> JNull"
  then have g: "dict_get msg ''reasoning_content'' = v" and nn: "dict_get msg ''reasoning_content'' \<noteq> JNull"
    by (simp_all add: dict_get_def)
  have ne: "none_or_empty (dict_get msg ''content'') \<longleftrightarrow>
              map_of msg ''content'' \<in> {None, Some JNull, Some (JStr [])}"
    by (cases "map_of msg ''content''") (auto simp: none_or_empty_def dict_get_def)
  show "map_of (patch_reasoning_in_message msg) ''reasoning_content'' = None"
    by (simp add: map_of_patch_present [OF nn])
  show "map_of (patch_reasoning_in_message msg) ''content'' =
          (if map_of msg ''content'' \<in> {None, Some JNull, Some (JStr [])}
           then Some v else map_of msg ''content'')"
    using ne by (simp add: map_of_patch_present [OF nn] g)
  show "\<And>k. k \<noteq> ''reasoning_content'' \<and> k \<noteq> ''content'' \<Longrightarrow>
          map_of (patch_reasoning_in_message msg) k = map_of msg k"
    by (simp add: map_of_patch_present [OF nn])
next
  assume "map_of msg ''reasoning_content'' \<in> {None, Some JNull}"
  then have "dict_get msg ''reasoning_content'' = JNull"
    by (auto simp: dict_get_def)
  then show "patch_reasoning_in_message msg = msg"
    by (rule map_of_patch_absent)
qed

theorem field_patcher_contract_witness:
  "map_of (patch_reasoning_in_message
             [(''role'', JStr ''assistant''), (''content'', JStr ''''),
              (''reasoning_content'', JStr ''hi'')]) ''reasoning_content'' = None
   \<and> map_of (patch_reasoning_in_message
             [(''role'', JStr ''assistant''), (''content'', JStr ''''),
              (''reasoning_content'', JStr ''hi'')]) ''content'' = Some (JStr ''hi'')
   \<and> map_of (patch_reasoning_in_message
             [(''role'', JStr ''assistant''), (''content'', JStr ''''),
              (''reasoning_content'', JStr ''hi'')]) ''role'' = Some (JStr ''assistant'')
   \<and> patch_reasoning_in_message [(''content'', JStr ''x''), (''reasoning_content'', JNull)]
       = [(''content'', JStr ''x''), (''reasoning_content'', JNull)]"
  using field_patcher_contract
          [of "[(''role'', JStr ''assistant''), (''content'', JStr ''''),
                (''reasoning_content'', JStr ''hi'')]"]
        field_patcher_contract
          [of "[(''content'', JStr ''x''), (''reasoning_content'', JNull)]"]
  by simp

text \<open>
  C2. The Field Patcher is idempotent: a second application changes nothing.
\<close>

theorem field_patcher_idempotent:
  "patch_reasoning_in_message (patch_reasoning_in_message msg) = patch_reasoning_in_message msg"
proof (cases "dict_get msg ''reasoning_content'' = JNull")
  case True
  then show ?thesis by (simp add: map_of_patch_absent)
next
  case False
  have "map_of (patch_reasoning_in_message msg) ''reasoning_content'' = None"
    by (simp add: map_of_patch_present [OF False])
  then have "dict_get (patch_reasoning_in_message msg) ''reasoning_content'' = JNull"
    by (simp add: dict_get_def)
  then show ?thesis by (rule map_of_patch_absent)
qed

section \<open>Splitting and the inner loop\<close>

lemma split_nn_nonempty: "split_nn s \<noteq> []"
  by (induction s rule: split_nn.induct) (auto split: list.splits)

lemma split_nn_no_nl: "nl \<notin> set s \<Longrightarrow> split_nn s = [s]"
  by (induction s rule: split_nn.induct) (auto split: list.splits)

lemma split_nn_frame: "nl \<notin> set f \<Longrightarrow> split_nn (f @ nn @ rest) = f # split_nn rest"
proof (induction f)
  case Nil
  then show ?case by (simp add: nn_def)
next
  case (Cons a f)
  then have "a \<noteq> nl" by auto
  moreover obtain b tl' where "f @ nn @ rest = b # tl'"
    by (cases "f @ nn @ rest") (auto simp: nn_def)
  ultimately show ?case using Cons by simp
qed

lemma split_nn_join_frames:
  "\<forall>f \<in> set fs. nl \<notin> set f \<Longrightarrow> split_nn (join_frames fs @ rest) = fs @ split_nn rest"
  by (induction fs) (simp_all add: join_frames_def split_nn_frame)

lemma patch_event_empty: "patch_event loads dumps [] = Inr nn"
  by (simp add: patch_event_def starts_with_def)

lemma patch_event_other:
  "\<not> starts_with e ''data:'' \<Longrightarrow> patch_event loads dumps e = Inr (e @ nn)"
  by (simp add: patch_event_def)

lemma patch_event_undecodable:
  "starts_with e ''data:'' \<Longrightarrow> loads (strip (drop 5 e)) = None \<Longrightarrow>
     patch_event loads dumps e = Inr (e @ nn)"
  by (simp add: patch_event_def Let_def)

lemma patch_events_append:
  "patch_events loads dumps (xs @ ys) =
     (case patch_events loads dumps xs of
        (us, Some exc) \<Rightarrow> (us, Some exc)
      | (us, None) \<Rightarrow> (case patch_events loads dumps ys of (vs, r) \<Rightarrow> (us @ vs, r)))"
  by (induction xs) (auto split: sum.splits prod.splits option.splits)

lemma patch_events_all_ok:
  "list_all2 (\<lambda>e y. patch_event loads dumps e = Inr y) es ys \<Longrightarrow>
     patch_events loads dumps es = (ys, None)"
  by (induction es ys rule: list_all2_induct) auto

lemma stream_patch_append:
  "stream_patch loads dumps (xs @ ys) = stream_patch loads dumps xs @ stream_patch loads dumps ys"
  by (simp add: stream_patch_def)

section \<open>SSE round trip\<close>

lemma sse_delta_SomeD:
  "sse_delta obj = Some d \<Longrightarrow>
     \<exists>kvs c0 rest. obj = JObj kvs \<and> map_of kvs ''choices'' = Some (JArr (JObj c0 # rest))
        \<and> map_of c0 ''delta'' = Some (JObj d)"
  by (auto simp: sse_delta_def split: json.splits option.splits list.splits)

lemma carries_update_value:
  "\<not> carries_reasoning (JObj (AList.update k w al)) \<Longrightarrow> \<not> carries_reasoning w"
  by (induction al) (auto split: if_splits)

lemma carries_update_swap:
  "\<not> carries_reasoning (JObj (AList.update k w al)) \<Longrightarrow> \<not> carries_reasoning w' \<Longrightarrow>
     \<not> carries_reasoning (JObj (AList.update k w' al))"
  by (induction al) (auto split: if_splits)

lemma carries_update:
  "k \<noteq> ''reasoning_content'' \<Longrightarrow> \<not> carries_reasoning (JObj al) \<Longrightarrow>
     \<not> carries_reasoning w \<Longrightarrow> \<not> carries_reasoning (JObj (AList.update k w al))"
  by (induction al) (auto split: if_splits)

lemma patch_delta_dict_explicit:
  "''reasoning_content'' \<in> fst ` set d \<Longrightarrow>
     patch_delta (JObj d) =
       Inr (JObj (if ''content'' \<notin> fst ` set d \<or> none_or_empty (dict_get d ''content'')
                  then AList.update ''content'' (dict_get d ''reasoning_content'')
                         (AList.delete ''reasoning_content'' d)
                  else AList.delete ''reasoning_content'' d))"
  by (simp add: patch_delta_def py_contains_def then_do_def)

lemma patch_sse_obj_clean:
  assumes "reasoning_only_in_first_delta obj"
  shows "\<exists>obj'. patch_sse_obj obj = Inr obj' \<and> \<not> carries_reasoning obj'"
proof -
  from assms obtain d where sd: "sse_delta obj = Some d"
    and r: "''reasoning_content'' \<in> fst ` set d"
    and fv: "\<not> carries_reasoning (dict_get d ''reasoning_content'')"
    and fd: "\<not> carries_reasoning (JObj (AList.delete ''reasoning_content'' d))"
    and fb: "\<not> carries_reasoning (blank_first_delta obj)"
    by (auto simp: reasoning_only_in_first_delta_def split: option.splits)
  from sse_delta_SomeD [OF sd] obtain kvs c0 rest where
    o: "obj = JObj kvs" and c: "map_of kvs ''choices'' = Some (JArr (JObj c0 # rest))"
    and dl: "map_of c0 ''delta'' = Some (JObj d)" by blast
  let ?d' = "if ''content'' \<notin> fst ` set d \<or> none_or_empty (dict_get d ''content'')
             then AList.update ''content'' (dict_get d ''reasoning_content'')
                    (AList.delete ''reasoning_content'' d)
             else AList.delete ''reasoning_content'' d"
  let ?c0' = "AList.update ''delta'' (JObj ?d') c0"
  let ?obj' = "JObj (AList.update ''choices'' (JArr (JObj ?c0' # rest)) kvs)"
  have p: "patch_delta (JObj d) = Inr (JObj ?d')"
    using r by (rule patch_delta_dict_explicit)
  have res: "patch_sse_obj obj = Inr ?obj'"
    by (simp add: patch_sse_obj_def o c dl p py_get_def py_index0_def store_delta_def then_do_def)
  have b: "blank_first_delta obj =
             JObj (AList.update ''choices''
                     (JArr (JObj (AList.update ''delta'' JNull c0) # rest)) kvs)"
    by (simp add: blank_first_delta_def o c)
  have hole: "\<not> carries_reasoning (JArr (JObj (AList.update ''delta'' JNull c0) # rest))"
    using fb unfolding b by (rule carries_update_value)
  then have h0: "\<not> carries_reasoning (JObj (AList.update ''delta'' JNull c0))"
    and hr: "\<not> carries_reasoning (JArr rest)" by simp_all
  have d': "\<not> carries_reasoning (JObj ?d')"
  proof (cases "''content'' \<notin> fst ` set d \<or> none_or_empty (dict_get d ''content'')")
    case True
    have "\<not> carries_reasoning (JObj (AList.update ''content'' (dict_get d ''reasoning_content'')
                                       (AList.delete ''reasoning_content'' d)))"
      using fd fv by (intro carries_update) simp_all
    with True show ?thesis by simp
  next
    case False
    with fd show ?thesis by simp
  qed
  have c0': "\<not> carries_reasoning (JObj ?c0')"
    using h0 d' by (rule carries_update_swap)
  have "\<not> carries_reasoning (JArr (JObj ?c0' # rest))"
    using c0' hr by simp
  with fb have "\<not> carries_reasoning ?obj'"
    unfolding b by (rule carries_update_swap)
  with res show ?thesis by blast
qed

lemma round_trip_frame_event:
  assumes "round_trip_frame loads f"
  shows "\<exists>y. patch_event loads dumps f = Inr y \<and> patched_frame loads dumps f y"
proof (cases "strip (drop 5 f) = ''[DONE]''")
  case True
  with assms show ?thesis
    by (simp add: round_trip_frame_def patch_event_def patched_frame_def)
next
  case False
  with assms obtain obj where l: "loads (strip (drop 5 f)) = Some obj"
    and h: "reasoning_only_in_first_delta obj"
    by (auto simp: round_trip_frame_def split: option.splits)
  from patch_sse_obj_clean [OF h] obtain obj' where
    p: "patch_sse_obj obj = Inr obj'" and n: "\<not> carries_reasoning obj'" by blast
  from assms have s: "starts_with f ''data:''" by (simp add: round_trip_frame_def)
  show ?thesis
    using False l p n s by (simp add: patch_event_def patched_frame_def then_do_def)
qed

lemma round_trip_frames_events:
  "\<forall>f \<in> set fs. round_trip_frame loads f \<Longrightarrow>
     \<exists>ys. list_all2 (\<lambda>f y. patch_event loads dumps f = Inr y) fs ys
          \<and> list_all2 (patched_frame loads dumps) fs ys"
proof (induction fs)
  case Nil
  then show ?case by simp
next
  case (Cons f fs)
  then obtain ys where "list_all2 (\<lambda>f y. patch_event loads dumps f = Inr y) fs ys"
    "list_all2 (patched_frame loads dumps) fs ys" by auto
  moreover from Cons.prems round_trip_frame_event [of loads f dumps] obtain y where
    "patch_event loads dumps f = Inr y" "patched_frame loads dumps f y" by auto
  ultimately have "list_all2 (\<lambda>f y. patch_event loads dumps f = Inr y) (f # fs) (y # ys)
      \<and> list_all2 (patched_frame loads dumps) (f # fs) (y # ys)" by simp
  then show ?case by blast
qed

lemma round_trip_chunk:
  assumes "\<forall>f \<in> set fs. round_trip_frame loads f"
  shows "\<exists>ys. patch_chunk loads dumps (join_frames fs) = ys @ [nn]
          \<and> list_all2 (patched_frame loads dumps) fs ys"
proof -
  from round_trip_frames_events [OF assms] obtain ys where
    e: "list_all2 (\<lambda>f y. patch_event loads dumps f = Inr y) fs ys"
    and p: "list_all2 (patched_frame loads dumps) fs ys" by blast
  from assms have "\<forall>f \<in> set fs. nl \<notin> set f" by (simp add: round_trip_frame_def)
  then have "split_nn (join_frames fs @ []) = fs @ split_nn []"
    by (rule split_nn_join_frames)
  then have s: "split_nn (join_frames fs) = fs @ [[]]" by simp
  have "list_all2 (\<lambda>f y. patch_event loads dumps f = Inr y) (fs @ [[]]) (ys @ [nn])"
    using e by (simp add: list_all2_appendI patch_event_empty)
  then have "patch_events loads dumps (fs @ [[]]) = (ys @ [nn], None)"
    by (rule patch_events_all_ok)
  then have "patch_chunk loads dumps (join_frames fs) = ys @ [nn]"
    by (simp add: patch_chunk_def s)
  with p show ?thesis by blast
qed

text \<open>
  The output in full, for any decoder and encoder, when the stream arrives in chunks made
  of whole frames of the round-trip kind. For every chunk the output holds one frame for
  each frame of the chunk, in order, and after them one more item, a bare delimiter: the
  piece that \<open>split\<close> leaves after the last delimiter of the chunk is empty, and the loop
  emits it like a frame.
\<close>

lemma round_trip_stream:
  assumes "\<forall>fs \<in> set fss. \<forall>f \<in> set fs. round_trip_frame loads f"
  shows "\<exists>outs. stream_patch loads dumps (map join_frames fss) = concat outs
           \<and> list_all2 (\<lambda>fs out. \<exists>ys. out = ys @ [nn]
                            \<and> list_all2 (patched_frame loads dumps) fs ys) fss outs"
  using assms
proof (induction fss)
  case Nil
  then show ?case by (simp add: stream_patch_def)
next
  case (Cons fs fss)
  then obtain outs where o: "stream_patch loads dumps (map join_frames fss) = concat outs"
    and l: "list_all2 (\<lambda>fs out. \<exists>ys. out = ys @ [nn]
               \<and> list_all2 (patched_frame loads dumps) fs ys) fss outs" by auto
  from Cons.prems have "\<forall>f \<in> set fs. round_trip_frame loads f" by simp
  from round_trip_chunk [OF this] obtain ys where
    c: "patch_chunk loads dumps (join_frames fs) = ys @ [nn]"
    and p: "list_all2 (patched_frame loads dumps) fs ys" by blast
  have "stream_patch loads dumps (map join_frames (fs # fss)) = concat ((ys @ [nn]) # outs)"
    using o c by (simp add: stream_patch_def)
  moreover have "list_all2 (\<lambda>fs out. \<exists>ys. out = ys @ [nn]
               \<and> list_all2 (patched_frame loads dumps) fs ys) (fs # fss) ((ys @ [nn]) # outs)"
    using l p by auto
  ultimately show ?case by blast
qed

lemma patched_frame_not_bare:
  assumes "patched_frame loads dumps f y"
  shows "y \<noteq> nn"
proof (cases "strip (drop 5 f) = ''[DONE]''")
  case True
  then have "f \<noteq> []" by (auto simp: strip_def)
  moreover from True assms have "y = f @ nn" by (simp add: patched_frame_def)
  ultimately show ?thesis by simp
next
  case False
  with assms obtain obj' where "y = ''data: '' @ dumps obj' @ nn"
    by (auto simp: patched_frame_def split: option.splits sum.splits)
  then show ?thesis by (simp add: nn_def)
qed

lemma filter_bare_frames:
  assumes "list_all2 (patched_frame loads dumps) fs ys"
  shows "filter (\<lambda>y. y \<noteq> nn) (ys @ [nn]) = ys"
proof -
  have "y \<noteq> nn" if "y \<in> set ys" for y
  proof -
    from that assms obtain f where "patched_frame loads dumps f y"
      by (auto simp: list_all2_conv_all_nth in_set_conv_nth)
    then show ?thesis by (rule patched_frame_not_bare)
  qed
  then show ?thesis by (simp add: filter_id_conv)
qed

text \<open>
  C3, as amended. The stream arrives in chunks, each made of whole frames of the
  round-trip kind: in every data frame \<open>reasoning_content\<close> is a key of
  \<open>choices[0].delta\<close> and occurs nowhere else in the event. Bare delimiters apart, the
  output holds one frame for each input frame, in the same order: the sentinel frame as it
  came in, a data frame as \<open>data: \<close> and the serialisation of the patched event, which
  carries \<open>reasoning_content\<close> nowhere.
\<close>

theorem sse_round_trip_frames:
  assumes "\<forall>fs \<in> set fss. \<forall>f \<in> set fs. round_trip_frame loads f"
  shows "list_all2 (patched_frame loads dumps) (concat fss)
           (filter (\<lambda>y. y \<noteq> nn) (stream_patch loads dumps (map join_frames fss)))"
  using assms
proof (induction fss)
  case Nil
  then show ?case by (simp add: stream_patch_def)
next
  case (Cons fs fss)
  then have ih: "list_all2 (patched_frame loads dumps) (concat fss)
           (filter (\<lambda>y. y \<noteq> nn) (stream_patch loads dumps (map join_frames fss)))" by simp
  from Cons.prems have "\<forall>f \<in> set fs. round_trip_frame loads f" by simp
  from round_trip_chunk [OF this] obtain ys where
    c: "patch_chunk loads dumps (join_frames fs) = ys @ [nn]"
    and p: "list_all2 (patched_frame loads dumps) fs ys" by blast
  have "filter (\<lambda>y. y \<noteq> nn) (stream_patch loads dumps (map join_frames (fs # fss))) =
          ys @ filter (\<lambda>y. y \<noteq> nn) (stream_patch loads dumps (map join_frames fss))"
    using filter_bare_frames [OF p] by (simp add: stream_patch_def c)
  then show ?case using p ih by (simp add: list_all2_appendI)
qed

text \<open>
  The claim as stated fails on a stream of one data frame and the sentinel. Received as
  one chunk, the data frame comes out patched and the sentinel frame as it went in, but a
  bare delimiter follows them, so that two frames go in and three delimiter-closed frames
  come out. Received in two chunks that meet inside the data frame, no frame of the output
  is a patched data frame: the halves of the frame come out as they went in. And a frame
  with \<open>reasoning_content\<close> in the delta of its first and of its second choice comes out
  with the key still in the second.
\<close>

theorem sse_round_trip_counterexample:
  "stream_patch json_loads json_dumps [example_frame @ nn @ done_frame @ nn] =
     [example_patched_frame @ nn, done_frame @ nn, nn]
   \<and> frame_count (example_frame @ nn @ done_frame @ nn) = 2
   \<and> frame_count (concat (stream_patch json_loads json_dumps
                             [example_frame @ nn @ done_frame @ nn])) = 3
   \<and> example_chunk1 @ example_rest = example_frame
   \<and> stream_patch json_loads json_dumps [example_chunk1, example_rest @ nn @ done_frame @ nn] =
       [example_chunk1 @ nn, example_rest @ nn, done_frame @ nn, nn]
   \<and> map_option has_first_delta_reasoning (json_loads (strip (drop 5 two_choice_frame)))
       = Some True
   \<and> stream_patch json_loads json_dumps [two_choice_frame @ nn] = [two_choice_output @ nn, nn]
   \<and> map_option carries_reasoning (json_loads (strip (drop 5 two_choice_output))) = Some True"
  by code_simp

theorem sse_round_trip_frames_witness:
  "round_trip_frame json_loads example_frame
   \<and> round_trip_frame json_loads done_frame
   \<and> list_all2 (patched_frame json_loads json_dumps) [example_frame, done_frame]
        (filter (\<lambda>y. y \<noteq> nn)
           (stream_patch json_loads json_dumps (map join_frames [[example_frame], [done_frame]])))
   \<and> filter (\<lambda>y. y \<noteq> nn)
        (stream_patch json_loads json_dumps (map join_frames [[example_frame], [done_frame]]))
       = [example_patched_frame @ nn, done_frame @ nn]"
proof -
  have h1: "round_trip_frame json_loads example_frame" by code_simp
  have h2: "round_trip_frame json_loads done_frame" by code_simp
  have h: "\<forall>fs \<in> set [[example_frame], [done_frame]]. \<forall>f \<in> set fs. round_trip_frame json_loads f"
    using h1 h2 by simp
  have e: "filter (\<lambda>y. y \<noteq> nn)
        (stream_patch json_loads json_dumps (map join_frames [[example_frame], [done_frame]]))
       = [example_patched_frame @ nn, done_frame @ nn]" by code_simp
  from sse_round_trip_frames [OF h, of json_dumps] h1 h2 e show ?thesis by simp
qed

section \<open>Chunk boundaries\<close>

lemma cut_frame_output:
  assumes "nl \<notin> set f" and "starts_with (take k f) ''data:''"
    and "\<not> starts_with (drop k f) ''data:''"
    and "loads (strip (drop 5 (take k f))) = None"
  shows "stream_patch loads dumps [take k f, drop k f @ nn] =
           [take k f @ nn, drop k f @ nn, nn]"
proof -
  from assms(1) have n1: "nl \<notin> set (take k f)" and n2: "nl \<notin> set (drop k f)"
    by (auto dest: in_set_takeD in_set_dropD)
  have s1: "split_nn (take k f) = [take k f]" using n1 by (rule split_nn_no_nl)
  have "split_nn (drop k f @ nn @ []) = drop k f # split_nn []" using n2 by (rule split_nn_frame)
  then have s2: "split_nn (drop k f @ nn) = [drop k f, []]" by simp
  have e1: "patch_event loads dumps (take k f) = Inr (take k f @ nn)"
    using assms(2,4) by (simp add: patch_event_undecodable)
  have e2: "patch_event loads dumps (drop k f) = Inr (drop k f @ nn)"
    using assms(3) by (simp add: patch_event_other)
  have c1: "patch_chunk loads dumps (take k f) = [take k f @ nn]"
    by (simp add: patch_chunk_def s1 e1)
  have c2: "patch_chunk loads dumps (drop k f @ nn) = [drop k f @ nn, nn]"
    by (simp add: patch_chunk_def s2 e2 patch_event_empty)
  show ?thesis
    by (simp add: stream_patch_def c1 c2)
qed

text \<open>
  C4, as amended. No partial frame is buffered: the output for a sequence of chunks is
  the output for its first part followed by the output for the rest, so every chunk is
  split and processed on its own. When a \<open>data:\<close> frame \<open>f\<close> without line feeds is cut
  after \<open>k\<close> bytes, so that the first part still begins with \<open>data:\<close> but its payload
  does not decode, and the second part does not begin with \<open>data:\<close>, the frame is not
  patched: the output for the two chunks is the first part followed by a delimiter, the
  second part followed by the delimiter that closed the frame, and a bare delimiter.
\<close>

theorem chunk_boundary_not_buffered:
  "stream_patch loads dumps (gen1 @ gen2) =
     stream_patch loads dumps gen1 @ stream_patch loads dumps gen2
   \<and> (nl \<notin> set f \<and> starts_with (take k f) ''data:'' \<and> \<not> starts_with (drop k f) ''data:''
        \<and> loads (strip (drop 5 (take k f))) = None \<longrightarrow>
      stream_patch loads dumps [take k f, drop k f @ nn] =
        [take k f @ nn, drop k f @ nn, nn])"
proof (intro conjI impI)
  show "stream_patch loads dumps (gen1 @ gen2) =
          stream_patch loads dumps gen1 @ stream_patch loads dumps gen2"
    by (rule stream_patch_append)
next
  assume "nl \<notin> set f \<and> starts_with (take k f) ''data:'' \<and> \<not> starts_with (drop k f) ''data:''
        \<and> loads (strip (drop 5 (take k f))) = None"
  then show "stream_patch loads dumps [take k f, drop k f @ nn] =
               [take k f @ nn, drop k f @ nn, nn]"
    by (simp add: cut_frame_output)
qed

text \<open>
  The claim as stated fails on the example stream cut inside its data frame: the output
  differs from the output for the stream received as one chunk, which is patched.
\<close>

theorem chunk_boundary_counterexample:
  "example_chunk1 @ example_rest @ nn @ done_frame @ nn = example_frame @ nn @ done_frame @ nn
   \<and> stream_patch json_loads json_dumps [example_frame @ nn @ done_frame @ nn] =
       [example_patched_frame @ nn, done_frame @ nn, nn]
   \<and> stream_patch json_loads json_dumps [example_chunk1, example_rest @ nn @ done_frame @ nn] =
       [example_chunk1 @ nn, example_rest @ nn, done_frame @ nn, nn]
   \<and> concat (stream_patch json_loads json_dumps
                [example_chunk1, example_rest @ nn @ done_frame @ nn])
       \<noteq> concat (stream_patch json_loads json_dumps [example_frame @ nn @ done_frame @ nn])"
  by code_simp

theorem chunk_boundary_not_buffered_witness:
  "nl \<notin> set example_frame
   \<and> starts_with (take 40 example_frame) ''data:''
   \<and> \<not> starts_with (drop 40 example_frame) ''data:''
   \<and> json_loads (strip (drop 5 (take 40 example_frame))) = None
   \<and> take 40 example_frame = example_chunk1
   \<and> drop 40 example_frame = example_rest
   \<and> stream_patch json_loads json_dumps [example_chunk1, example_rest @ nn]
       = [example_chunk1 @ nn, example_rest @ nn, nn]"
proof -
  have h: "nl \<notin> set example_frame
       \<and> starts_with (take 40 example_frame) ''data:''
       \<and> \<not> starts_with (drop 40 example_frame) ''data:''
       \<and> json_loads (strip (drop 5 (take 40 example_frame))) = None"
    by code_simp
  have t: "take 40 example_frame = example_chunk1 \<and> drop 40 example_frame = example_rest"
    by code_simp
  from chunk_boundary_not_buffered [of json_loads json_dumps "[]" "[]" example_frame 40] h t
  show ?thesis by simp
qed

section \<open>Malformed payloads\<close>

text \<open>
  C5, as amended. A non-streaming body that does not decode is returned as it is, in a
  response with the status of the backend: no exception reaches the caller. In a stream, a
  \<open>data:\<close> frame whose payload does not decode is yielded by the loop as it is, followed
  by the delimiter; and when the pieces of the chunk before it and after it are processed
  without an exception, the output for the chunk is their output with that frame in its
  place.
\<close>

theorem malformed_payload_recovery:
  "(loads (concat (resp_chunks response)) = None \<longrightarrow>
      patch_reasoning_in_json_bytes loads dumps (concat (resp_chunks response))
        = concat (resp_chunks response)
    \<and> (\<exists>r. handle_backend_response loads dumps response False = Inr r
            \<and> sr_status_code r = status_code response
            \<and> sr_body r = [concat (resp_chunks response)]))
   \<and> (starts_with e ''data:'' \<and> loads (strip (drop 5 e)) = None \<longrightarrow>
        patch_event loads dumps e = Inr (e @ nn)
      \<and> (split_nn chunk = pre @ e # post
           \<and> patch_events loads dumps pre = (us, None)
           \<and> patch_events loads dumps post = (vs, None) \<longrightarrow>
          stream_patch loads dumps [chunk] = us @ [e @ nn] @ vs))"
proof (intro conjI impI)
  assume l: "loads (concat (resp_chunks response)) = None"
  then show b: "patch_reasoning_in_json_bytes loads dumps (concat (resp_chunks response))
        = concat (resp_chunks response)"
    by (simp add: patch_reasoning_in_json_bytes_def)
  show "\<exists>r. handle_backend_response loads dumps response False = Inr r
            \<and> sr_status_code r = status_code response
            \<and> sr_body r = [concat (resp_chunks response)]"
    using b by (simp add: handle_backend_response_def Let_def)
next
  assume a: "starts_with e ''data:'' \<and> loads (strip (drop 5 e)) = None"
  then show ev: "patch_event loads dumps e = Inr (e @ nn)"
    by (simp add: patch_event_undecodable)
  assume c: "split_nn chunk = pre @ e # post
           \<and> patch_events loads dumps pre = (us, None)
           \<and> patch_events loads dumps post = (vs, None)"
  have "patch_events loads dumps (pre @ e # post) = (us @ (e @ nn) # vs, None)"
    using c ev by (simp add: patch_events_append)
  then show "stream_patch loads dumps [chunk] = us @ [e @ nn] @ vs"
    using c by (simp add: stream_patch_def patch_chunk_def)
qed

text \<open>
  The claim as stated fails when another frame of the chunk raises an exception in the
  patch step. With a frame without choices first, the whole chunk is forwarded as it came:
  the well-formed frame next to the malformed one is not patched. With that frame last,
  the malformed frame is in the output twice, once from the loop and once in the chunk
  that the handler forwards.
\<close>

theorem malformed_payload_counterexample:
  "starts_with malformed_frame ''data:''
   \<and> json_loads (strip (drop 5 malformed_frame)) = None
   \<and> stream_patch json_loads json_dumps [example_frame @ nn] = [example_patched_frame @ nn, nn]
   \<and> stream_patch json_loads json_dumps
         [empty_choices_frame @ nn @ malformed_frame @ nn @ example_frame @ nn]
       = [empty_choices_frame @ nn @ malformed_frame @ nn @ example_frame @ nn]
   \<and> stream_patch json_loads json_dumps
         [malformed_frame @ nn @ example_frame @ nn @ empty_choices_frame @ nn]
       = [malformed_frame @ nn, example_patched_frame @ nn,
          malformed_frame @ nn @ example_frame @ nn @ empty_choices_frame @ nn]"
  by code_simp

theorem malformed_payload_recovery_witness:
  "json_loads (concat (resp_chunks html_response)) = None
   \<and> handle_backend_response json_loads json_dumps html_response False =
       Inr \<lparr> sr_status_code = 200, sr_media_type = ''text/html'',
             sr_headers = [(''content-type'', ''text/html'')],
             sr_body = [''<html></html>''] \<rparr>
   \<and> starts_with malformed_frame ''data:''
   \<and> json_loads (strip (drop 5 malformed_frame)) = None
   \<and> split_nn (example_frame @ nn @ malformed_frame @ nn @ example_frame @ nn)
       = [example_frame] @ malformed_frame # [example_frame, []]
   \<and> patch_events json_loads json_dumps [example_frame] = ([example_patched_frame @ nn], None)
   \<and> patch_events json_loads json_dumps [example_frame, []]
       = ([example_patched_frame @ nn, nn], None)
   \<and> stream_patch json_loads json_dumps
        [example_frame @ nn @ malformed_frame @ nn @ example_frame @ nn]
       = [example_patched_frame @ nn, malformed_frame @ nn, example_patched_frame @ nn, nn]"
proof -
  have a: "json_loads (concat (resp_chunks html_response)) = None" by code_simp
  have b: "handle_backend_response json_loads json_dumps html_response False =
       Inr \<lparr> sr_status_code = 200, sr_media_type = ''text/html'',
             sr_headers = [(''content-type'', ''text/html'')],
             sr_body = [''<html></html>''] \<rparr>" by code_simp
  have c: "starts_with malformed_frame ''data:'' \<and> json_loads (strip (drop 5 malformed_frame)) = None"
    by code_simp
  have d: "split_nn (example_frame @ nn @ malformed_frame @ nn @ example_frame @ nn)
       = [example_frame] @ malformed_frame # [example_frame, []]" by code_simp
  have e: "patch_events json_loads json_dumps [example_frame] = ([example_patched_frame @ nn], None)"
    by code_simp
  have f: "patch_events json_loads json_dumps [example_frame, []]
       = ([example_patched_frame @ nn, nn], None)" by code_simp
  from malformed_payload_recovery
         [of json_loads html_response json_dumps malformed_frame
             "example_frame @ nn @ malformed_frame @ nn @ example_frame @ nn"
             "[example_frame]" "[example_frame, []]"
             "[example_patched_frame @ nn]" "[example_patched_frame @ nn, nn]"]
       a b c d e f
  show ?thesis by simp
qed

section \<open>Chat payload\<close>

lemma map_of_setdefault:
  "map_of (setdefault d k v) = (case map_of d k of None \<Rightarrow> (map_of d)(k \<mapsto> v) | Some w \<Rightarrow> map_of d)"
  by (simp add: setdefault_def update_conv' split: option.splits)

lemma map_of_setdefault_same:
  "map_of (setdefault d k v) k = Some (case map_of d k of None \<Rightarrow> v | Some w \<Rightarrow> w)"
  by (simp add: map_of_setdefault split: option.splits)

lemma map_of_setdefault_keeps:
  "map_of d k = Some v \<Longrightarrow> map_of (setdefault d k' v') k = Some v"
  by (auto simp: map_of_setdefault split: option.splits)

lemma map_of_setdefault_other:
  "k' \<noteq> k \<Longrightarrow> map_of (setdefault d k v) k' = map_of d k'"
  by (simp add: map_of_setdefault split: option.splits)

lemma chat_payload_lookup:
  "map_of (chat_payload st r) ''chat_template_kwargs''
       = Some (JObj [(''enable_thinking'', JBool False)])
   \<and> map_of (chat_payload st r) ''temperature''
       = Some (case map_of (model_dump_exclude_unset r) ''temperature'' of
                 None \<Rightarrow> JFloat (DEFAULT_TEMPERATURE st) | Some v \<Rightarrow> v)
   \<and> map_of (chat_payload st r) ''top_p''
       = Some (case map_of (model_dump_exclude_unset r) ''top_p'' of
                 None \<Rightarrow> JFloat (DEFAULT_TOP_P st) | Some v \<Rightarrow> v)
   \<and> map_of (chat_payload st r) ''top_k''
       = Some (case map_of (model_dump_exclude_unset r) ''top_k'' of
                 None \<Rightarrow> JInt (DEFAULT_TOP_K st) | Some v \<Rightarrow> v)
   \<and> map_of (chat_payload st r) ''presence_penalty''
       = Some (case map_of (model_dump_exclude_unset r) ''presence_penalty'' of
                 None \<Rightarrow> JFloat (DEFAULT_PRESENCE_PENALTY st) | Some v \<Rightarrow> v)
   \<and> (map_of (model_dump_exclude_unset r) ''model'' = Some (JStr (model r)) \<longrightarrow>
        map_of (chat_payload st r) ''model'' = Some (JStr (model r)))
   \<and> (\<forall>k. k \<notin> set injected_keys \<longrightarrow>
          map_of (chat_payload st r) k = map_of (model_dump_exclude_unset r) k)
   \<and> (\<forall>k v. map_of (model_dump_exclude_unset r) k = Some v \<and> k \<noteq> ''chat_template_kwargs'' \<longrightarrow>
          map_of (chat_payload st r) k = Some v)"
proof -
  let ?d = "model_dump_exclude_unset r"
  let ?p1 = "AList.update ''chat_template_kwargs'' (JObj [(''enable_thinking'', JBool False)]) ?d"
  let ?p2 = "setdefault ?p1 ''temperature'' (JFloat (DEFAULT_TEMPERATURE st))"
  let ?p3 = "setdefault ?p2 ''top_p'' (JFloat (DEFAULT_TOP_P st))"
  let ?p4 = "setdefault ?p3 ''top_k'' (JInt (DEFAULT_TOP_K st))"
  let ?p5 = "setdefault ?p4 ''presence_penalty'' (JFloat (DEFAULT_PRESENCE_PENALTY st))"
  let ?p6 = "setdefault ?p5 ''model'' (JStr (model r))"
  have p: "chat_payload st r = ?p6" by (simp add: chat_payload_def Let_def)
  have m1: "map_of ?p1 = (map_of ?d)(''chat_template_kwargs'' \<mapsto> JObj [(''enable_thinking'', JBool False)])"
    by (simp add: update_conv')
  have c1: "map_of ?p6 ''chat_template_kwargs'' = Some (JObj [(''enable_thinking'', JBool False)])"
    by (simp add: map_of_setdefault_other m1)
  have c2: "map_of ?p6 ''temperature'' = Some (case map_of ?d ''temperature'' of
                 None \<Rightarrow> JFloat (DEFAULT_TEMPERATURE st) | Some v \<Rightarrow> v)"
    by (simp add: map_of_setdefault_other map_of_setdefault_same m1)
  have c3: "map_of ?p6 ''top_p'' = Some (case map_of ?d ''top_p'' of
                 None \<Rightarrow> JFloat (DEFAULT_TOP_P st) | Some v \<Rightarrow> v)"
    by (simp add: map_of_setdefault_other map_of_setdefault_same m1)
  have c4: "map_of ?p6 ''top_k'' = Some (case map_of ?d ''top_k'' of
                 None \<Rightarrow> JInt (DEFAULT_TOP_K st) | Some v \<Rightarrow> v)"
    by (simp add: map_of_setdefault_other map_of_setdefault_same m1)
  have c5: "map_of ?p6 ''presence_penalty'' = Some (case map_of ?d ''presence_penalty'' of
                 None \<Rightarrow> JFloat (DEFAULT_PRESENCE_PENALTY st) | Some v \<Rightarrow> v)"
    by (simp add: map_of_setdefault_other map_of_setdefault_same m1)
  have c6: "map_of ?p6 ''model'' = Some (case map_of ?d ''model'' of
                 None \<Rightarrow> JStr (model r) | Some v \<Rightarrow> v)"
    by (simp add: map_of_setdefault_other map_of_setdefault_same m1)
  have c7: "map_of ?p6 k = map_of ?d k" if "k \<notin> set injected_keys" for k
    using that by (simp add: injected_keys_def map_of_setdefault_other m1)
  have c8: "map_of ?p6 k = Some v" if "map_of ?d k = Some v \<and> k \<noteq> ''chat_template_kwargs''" for k v
  proof -
    have "map_of ?p1 k = Some v" using that by (simp add: m1)
    then show "map_of ?p6 k = Some v" by (intro map_of_setdefault_keeps)
  qed
  show ?thesis
    unfolding p using c1 c2 c3 c4 c5 c6 c7 c8 by simp
qed

text \<open>
  C6. The request that the chat forwarder sends, and the only one, carries a JSON payload
  in which \<open>chat_template_kwargs\<close> equals \<open>{"enable_thinking": false}\<close>; each of
  \<open>temperature\<close>, \<open>top_p\<close>, \<open>top_k\<close> and \<open>presence_penalty\<close> holds the value that
  the caller set, and the configured default exactly when the caller set none; the model
  id of a validated request is carried; every other key is in the payload exactly when the
  caller set it, with the caller's value; and every value that the caller set is kept, but
  for \<open>chat_template_kwargs\<close>.
\<close>

theorem chat_payload_construction:
  "\<exists>payload.
     out_content (chat_outbound_request st r) = Json_payload payload
   \<and> snd (forward_chat_completion_request_to_vllm st loads dumps backend r)
       = [chat_outbound_request st r]
   \<and> map_of payload ''chat_template_kwargs''
       = Some (JObj [(''enable_thinking'', JBool False)])
   \<and> map_of payload ''temperature''
       = Some (case map_of (model_dump_exclude_unset r) ''temperature'' of
                 None \<Rightarrow> JFloat (DEFAULT_TEMPERATURE st) | Some v \<Rightarrow> v)
   \<and> map_of payload ''top_p''
       = Some (case map_of (model_dump_exclude_unset r) ''top_p'' of
                 None \<Rightarrow> JFloat (DEFAULT_TOP_P st) | Some v \<Rightarrow> v)
   \<and> map_of payload ''top_k''
       = Some (case map_of (model_dump_exclude_unset r) ''top_k'' of
                 None \<Rightarrow> JInt (DEFAULT_TOP_K st) | Some v \<Rightarrow> v)
   \<and> map_of payload ''presence_penalty''
       = Some (case map_of (model_dump_exclude_unset r) ''presence_penalty'' of
                 None \<Rightarrow> JFloat (DEFAULT_PRESENCE_PENALTY st) | Some v \<Rightarrow> v)
   \<and> (map_of (model_dump_exclude_unset r) ''model'' = Some (JStr (model r)) \<longrightarrow>
        map_of payload ''model'' = Some (JStr (model r)))
   \<and> (\<forall>k. k \<notin> set injected_keys \<longrightarrow>
          map_of payload k = map_of (model_dump_exclude_unset r) k)
   \<and> (\<forall>k v. map_of (model_dump_exclude_unset r) k = Some v \<and> k \<noteq> ''chat_template_kwargs'' \<longrightarrow>
          map_of payload k = Some v)"
proof -
  have c: "out_content (chat_outbound_request st r) = Json_payload (chat_payload st r)"
    by (simp add: chat_outbound_request_def Let_def)
  have f: "snd (forward_chat_completion_request_to_vllm st loads dumps backend r)
             = [chat_outbound_request st r]"
    by (simp add: forward_chat_completion_request_to_vllm_def Let_def split: send_outcome.splits)
  show ?thesis
    using c f chat_payload_lookup [of st r]
    by (intro exI [of _ "chat_payload st r"]) simp
qed

theorem chat_payload_construction_witness:
  "out_content (chat_outbound_request default_settings example_chat_request)
     = Json_payload example_chat_payload
   \<and> snd (forward_chat_completion_request_to_vllm default_settings json_loads json_dumps
            (\<lambda>req. RequestError) example_chat_request)
       = [chat_outbound_request default_settings example_chat_request]
   \<and> map_of example_chat_payload ''chat_template_kwargs''
       = Some (JObj [(''enable_thinking'', JBool False)])
   \<and> map_of example_chat_payload ''temperature'' = Some (JFloat ''0.2'')
   \<and> map_of example_chat_payload ''top_p'' = Some (JFloat ''0.8'')
   \<and> map_of example_chat_payload ''top_k'' = Some (JInt 20)
   \<and> map_of example_chat_payload ''presence_penalty'' = Some (JFloat ''1.5'')
   \<and> map_of example_chat_payload ''model'' = Some (JStr ''qwen3'')
   \<and> map_of example_chat_payload ''n'' = None
   \<and> map_of example_chat_payload ''messages''
       = Some (JArr [JObj [(''role'', JStr ''user''), (''content'', JStr ''hi'')]])"
proof -
  have e: "out_content (chat_outbound_request default_settings example_chat_request)
             = Json_payload example_chat_payload"
    by code_simp
  have m: "map_of (model_dump_exclude_unset example_chat_request) ''model''
             = Some (JStr (model example_chat_request))"
    by (simp add: example_chat_request_def)
  from chat_payload_construction
         [of default_settings example_chat_request json_loads json_dumps "\<lambda>req. RequestError"]
  obtain payload where
    p: "out_content (chat_outbound_request default_settings example_chat_request)
          = Json_payload payload"
    and s: "snd (forward_chat_completion_request_to_vllm default_settings json_loads json_dumps
                   (\<lambda>req. RequestError) example_chat_request)
              = [chat_outbound_request default_settings example_chat_request]"
    and k: "map_of payload ''chat_template_kwargs''
              = Some (JObj [(''enable_thinking'', JBool False)])"
    and t: "map_of payload ''temperature''
              = Some (case map_of (model_dump_exclude_unset example_chat_request) ''temperature'' of
                        None \<Rightarrow> JFloat (DEFAULT_TEMPERATURE default_settings) | Some v \<Rightarrow> v)"
    and tp: "map_of payload ''top_p''
              = Some (case map_of (model_dump_exclude_unset example_chat_request) ''top_p'' of
                        None \<Rightarrow> JFloat (DEFAULT_TOP_P default_settings) | Some v \<Rightarrow> v)"
    and tk: "map_of payload ''top_k''
              = Some (case map_of (model_dump_exclude_unset example_chat_request) ''top_k'' of
                        None \<Rightarrow> JInt (DEFAULT_TOP_K default_settings) | Some v \<Rightarrow> v)"
    and pp: "map_of payload ''presence_penalty''
              = Some (case map_of (model_dump_exclude_unset example_chat_request)
                             ''presence_penalty'' of
                        None \<Rightarrow> JFloat (DEFAULT_PRESENCE_PENALTY default_settings)
                      | Some v \<Rightarrow> v)"
    and md: "map_of (model_dump_exclude_unset example_chat_request) ''model''
               = Some (JStr (model example_chat_request)) \<longrightarrow>
             map_of payload ''model'' = Some (JStr (model example_chat_request))"
    and o: "\<forall>k. k \<notin> set injected_keys \<longrightarrow>
              map_of payload k = map_of (model_dump_exclude_unset example_chat_request) k"
    by blast
  from p e have pe: "payload = example_chat_payload" by simp
  have n: "map_of payload ''n'' = None" and ms: "map_of payload ''messages''
       = Some (JArr [JObj [(''role'', JStr ''user''), (''content'', JStr ''hi'')]])"
    using o by (simp_all add: injected_keys_def example_chat_request_def)
  show ?thesis
    using e s k t tp tk pp md m n ms unfolding pe
    by (simp add: default_settings_def example_chat_request_def)
qed

section \<open>Backend errors and failures\<close>

text \<open>
  C7. A non-streaming backend response with status 400 or more is passed on with its
  status and with its body bytes as they are: the body is not decoded and not patched.
\<close>

theorem backend_error_pass_through:
  "status_code response \<ge> 400 \<Longrightarrow>
     handle_backend_response loads dumps response False =
       Inr \<lparr> sr_status_code = status_code response,
             sr_media_type = header_get (resp_headers response) ''content-type'' ''application/json'',
             sr_headers = safe_headers (resp_headers response),
             sr_body = [concat (resp_chunks response)] \<rparr>"
  by (simp add: handle_backend_response_def Let_def)

theorem backend_error_pass_through_witness:
  "(400::nat) \<le> status_code error_response
   \<and> handle_backend_response json_loads json_dumps error_response False =
       Inr \<lparr> sr_status_code = 500, sr_media_type = ''application/json'',
             sr_headers = [(''content-type'', ''application/json'')],
             sr_body = [oom_body] \<rparr>
   \<and> (400::nat) \<le> status_code reasoning_error_response
   \<and> handle_backend_response json_loads json_dumps reasoning_error_response False =
       Inr \<lparr> sr_status_code = 502, sr_media_type = ''application/json'',
             sr_headers = [], sr_body = [reasoning_body] \<rparr>
   \<and> patch_reasoning_in_json_bytes json_loads json_dumps reasoning_body \<noteq> reasoning_body"
proof -
  have h: "(400::nat) \<le> status_code error_response" by (simp add: error_response_def)
  have s: "safe_headers (resp_headers error_response) = [(''content-type'', ''application/json'')]"
    by code_simp
  have h': "(400::nat) \<le> status_code reasoning_error_response"
    by (simp add: reasoning_error_response_def)
  have s': "safe_headers (resp_headers reasoning_error_response) = []"
    by code_simp
  have p: "patch_reasoning_in_json_bytes json_loads json_dumps reasoning_body \<noteq> reasoning_body"
    by code_simp
  show ?thesis
    using backend_error_pass_through [OF h, of json_loads json_dumps]
          backend_error_pass_through [OF h', of json_loads json_dumps] h s h' s' p
    by (simp add: error_response_def reasoning_error_response_def header_get_def)
qed

text \<open>
  C8. In both forwarders a timeout of the backend call gives the \<open>HTTPException\<close> 504
  with its detail text, any other request error gives the \<open>HTTPException\<close> 503 with its
  detail text, and in every case the forwarder has sent exactly one request to the
  backend.
\<close>

theorem backend_failure_taxonomy:
  "(backend (chat_outbound_request st chat) = TimeoutException \<longrightarrow>
      forward_chat_completion_request_to_vllm st loads dumps backend chat =
        (Inl (HTTPException 504 (Text ''Gateway timeout: backend LLM did not respond in time.'')),
         [chat_outbound_request st chat]))
   \<and> (backend (chat_outbound_request st chat) = RequestError \<longrightarrow>
      forward_chat_completion_request_to_vllm st loads dumps backend chat =
        (Inl (HTTPException 503 (Text ''Backend LLM service unreachable.'')),
         [chat_outbound_request st chat]))
   \<and> (backend (generic_outbound_request st request) = TimeoutException \<longrightarrow>
      forward_generic_request_to_vllm st loads dumps backend request =
        (Inl (HTTPException 504 (Text ''Gateway timeout: backend LLM did not respond in time.'')),
         [generic_outbound_request st request]))
   \<and> (backend (generic_outbound_request st request) = RequestError \<longrightarrow>
      forward_generic_request_to_vllm st loads dumps backend request =
        (Inl (HTTPException 503 (Text ''Backend LLM service unreachable.'')),
         [generic_outbound_request st request]))
   \<and> length (snd (forward_chat_completion_request_to_vllm st loads dumps backend chat)) = 1
   \<and> length (snd (forward_generic_request_to_vllm st loads dumps backend request)) = 1"
  by (simp add: forward_chat_completion_request_to_vllm_def forward_generic_request_to_vllm_def
        Let_def split: send_outcome.splits)

theorem backend_failure_taxonomy_witness:
  "forward_chat_completion_request_to_vllm default_settings json_loads json_dumps
       (\<lambda>req. TimeoutException) example_chat_request =
     (Inl (HTTPException 504 (Text ''Gateway timeout: backend LLM did not respond in time.'')),
      [chat_outbound_request default_settings example_chat_request])
   \<and> forward_chat_completion_request_to_vllm default_settings json_loads json_dumps
       (\<lambda>req. RequestError) example_chat_request =
     (Inl (HTTPException 503 (Text ''Backend LLM service unreachable.'')),
      [chat_outbound_request default_settings example_chat_request])
   \<and> forward_generic_request_to_vllm default_settings json_loads json_dumps
       (\<lambda>req. TimeoutException) models_request =
     (Inl (HTTPException 504 (Text ''Gateway timeout: backend LLM did not respond in time.'')),
      [generic_outbound_request default_settings models_request])
   \<and> forward_generic_request_to_vllm default_settings json_loads json_dumps
       (\<lambda>req. RequestError) models_request =
     (Inl (HTTPException 503 (Text ''Backend LLM service unreachable.'')),
      [generic_outbound_request default_settings models_request])"
  using backend_failure_taxonomy
          [of "\<lambda>req. TimeoutException" default_settings example_chat_request
              json_loads json_dumps models_request]
        backend_failure_taxonomy
          [of "\<lambda>req. RequestError" default_settings example_chat_request
              json_loads json_dumps models_request]
  by simp

section \<open>Generic forwarder\<close>

lemma update_fresh: "k \<notin> fst ` set al \<Longrightarrow> AList.update k v al = al @ [(k, v)]"
  by (induction al) auto

lemma foldl_update_map_of:
  "map_of (foldl (\<lambda>d (k, v). AList.update k v d) acc kvs) = map_of acc ++ map_of (rev kvs)"
proof (induction kvs arbitrary: acc)
  case Nil
  then show ?case by simp
next
  case (Cons kv kvs)
  obtain k v where kv: "kv = (k, v)" by (cases kv)
  show ?case
    by (auto simp: kv Cons.IH update_conv' map_add_def fun_eq_iff split: option.splits)
qed

lemma foldl_update_distinct:
  "distinct (map fst (acc @ kvs)) \<Longrightarrow>
     foldl (\<lambda>d (k, v). AList.update k v d) acc kvs = acc @ kvs"
proof (induction kvs arbitrary: acc)
  case Nil
  then show ?case by simp
next
  case (Cons kv kvs)
  obtain k v where kv: "kv = (k, v)" by (cases kv)
  from Cons.prems have f: "k \<notin> fst ` set acc" by (auto simp: kv)
  have "distinct (map fst ((acc @ [(k, v)]) @ kvs))" using Cons.prems by (simp add: kv)
  from Cons.IH [OF this] show ?case by (simp add: kv update_fresh [OF f])
qed

lemma map_of_dict_of_items: "map_of (dict_of_items kvs) = map_of (rev kvs)"
  by (simp add: dict_of_items_def foldl_update_map_of)

lemma dict_of_items_distinct: "distinct (map fst kvs) \<Longrightarrow> dict_of_items kvs = kvs"
  using foldl_update_distinct [of "[]" kvs] by (simp add: dict_of_items_def)

lemma map_of_filter_key:
  "map_of (filter (\<lambda>(k, v). P k) kvs) k = (if P k then map_of kvs k else None)"
  by (induction kvs) auto

text \<open>
  What the generic forwarder reconstructs. The outbound URL is the base URL, the path and,
  when the query is not empty, \<open>?\<close> and the query; the method is the inbound method; the
  body is the inbound body (no body when it is empty); the response is expected to be a
  stream exactly when the first \<open>accept\<close> value, in lower case, contains
  \<open>text/event-stream\<close>. The headers are a dict: a name in the excluded set (compared in
  lower case) is absent, any other name has the last value received for it; when no name
  is repeated, the headers are the inbound headers without the excluded ones.
\<close>

lemma generic_request_reconstruction:
  "out_url (generic_outbound_request st rq) =
       VLLM_BASE_URL st @ url_path rq @ (if url_query rq = [] then [] else ''?'' @ url_query rq)
   \<and> out_method (generic_outbound_request st rq) = req_method rq
   \<and> (\<forall>k. map_of (out_headers (generic_outbound_request st rq)) k =
          (if lower k \<in> set request_excluded then None else map_of (rev (req_headers rq)) k))
   \<and> (distinct (map fst (req_headers rq)) \<longrightarrow>
        out_headers (generic_outbound_request st rq) =
          filter (\<lambda>(k, v). lower k \<notin> set request_excluded) (req_headers rq))
   \<and> out_content (generic_outbound_request st rq) =
        Content (if req_body rq = [] then None else Some (req_body rq))
   \<and> expect_stream rq =
        is_substring ''text/event-stream''
          (lower (case map_of (req_headers rq) ''accept'' of None \<Rightarrow> [] | Some v \<Rightarrow> v))"
proof (intro conjI allI impI)
  show "out_url (generic_outbound_request st rq) =
       VLLM_BASE_URL st @ url_path rq @ (if url_query rq = [] then [] else ''?'' @ url_query rq)"
    by (simp add: generic_outbound_request_def Let_def)
  show "out_method (generic_outbound_request st rq) = req_method rq"
    by (simp add: generic_outbound_request_def Let_def)
  show "map_of (out_headers (generic_outbound_request st rq)) k =
          (if lower k \<in> set request_excluded then None else map_of (rev (req_headers rq)) k)" for k
    using map_of_filter_key [of "\<lambda>k. lower k \<notin> set request_excluded" "rev (req_headers rq)" k]
    by (simp add: generic_outbound_request_def Let_def map_of_dict_of_items rev_filter)
  show "out_headers (generic_outbound_request st rq) =
          filter (\<lambda>(k, v). lower k \<notin> set request_excluded) (req_headers rq)"
    if "distinct (map fst (req_headers rq))"
  proof -
    have "distinct (map fst (filter (\<lambda>(k, v). lower k \<notin> set request_excluded) (req_headers rq)))"
      using that by (rule distinct_map_filter)
    then show ?thesis
      by (simp add: generic_outbound_request_def Let_def dict_of_items_distinct)
  qed
  show "out_content (generic_outbound_request st rq) =
        Content (if req_body rq = [] then None else Some (req_body rq))"
    by (simp add: generic_outbound_request_def Let_def)
  show "expect_stream rq =
        is_substring ''text/event-stream''
          (lower (case map_of (req_headers rq) ''accept'' of None \<Rightarrow> [] | Some v \<Rightarrow> v))"
    by (simp add: expect_stream_def header_get_def)
qed

text \<open>
  C9. On a request that repeats a header name, here \<open>x-trace\<close> with the values \<open>a\<close>
  and \<open>b\<close>, the outbound headers hold only the last value, while the inbound headers
  without the excluded names hold both: the dict comprehension keeps one value for each
  name.
\<close>

theorem generic_request_repeated_header:
  "out_headers (generic_outbound_request default_settings repeated_header_request)
     = [(''x-trace'', ''b'')]
   \<and> filter (\<lambda>(k, v). lower k \<notin> set request_excluded) (req_headers repeated_header_request)
     = [(''x-trace'', ''a''), (''x-trace'', ''b'')]
   \<and> out_headers (generic_outbound_request default_settings repeated_header_request)
     \<noteq> filter (\<lambda>(k, v). lower k \<notin> set request_excluded) (req_headers repeated_header_request)"
  by code_simp

lemma generic_request_reconstruction_example:
  "distinct (map fst (req_headers models_request))
   \<and> out_url (generic_outbound_request default_settings models_request)
        = ''http://localhost:10001/v1/models?limit=5''
   \<and> out_method (generic_outbound_request default_settings models_request) = ''GET''
   \<and> out_headers (generic_outbound_request default_settings models_request)
        = [(''accept'', ''Text/Event-Stream''), (''authorization'', ''Bearer k'')]
   \<and> out_content (generic_outbound_request default_settings models_request) = Content None
   \<and> expect_stream models_request"
proof -
  have d: "distinct (map fst (req_headers models_request))"
    by (simp add: models_request_def)
  have f: "filter (\<lambda>(k, v). lower k \<notin> set request_excluded) (req_headers models_request)
             = [(''accept'', ''Text/Event-Stream''), (''authorization'', ''Bearer k'')]"
    by code_simp
  have s: "is_substring ''text/event-stream''
          (lower (case map_of (req_headers models_request) ''accept'' of None \<Rightarrow> [] | Some v \<Rightarrow> v))"
    by code_simp
  show ?thesis
    using generic_request_reconstruction [of default_settings models_request] d f s
    by (simp add: default_settings_def models_request_def)
qed

section \<open>Exception fallback\<close>

lemma fallback_example:
  "stream_patch json_loads json_dumps [short_frame @ nn @ empty_choices_frame @ nn] =
     [short_frame @ nn, short_frame @ nn @ empty_choices_frame @ nn]"
  by code_simp

text \<open>
  C10. When an exception leaves the inner loop, the handler yields the whole chunk after
  the items that the loop had already yielded for that chunk; nothing is taken back. There
  is a chunk of two frames on which this repeats output: the first frame is well formed
  and is yielded; the event of the second has an empty list of choices, so the lookup of
  its first choice raises \<open>IndexError\<close>; the whole chunk follows, and the bytes of the
  first frame are in the output twice.
\<close>

theorem exception_fallback_duplicates_frames:
  "(patch_events loads dumps (split_nn chunk) = (ys, Some exc) \<longrightarrow>
      stream_patch loads dumps [chunk] = ys @ [chunk])
   \<and> json_loads (strip (drop 5 empty_choices_frame)) = Some (JObj [(''choices'', JArr [])])
   \<and> patch_sse_obj (JObj [(''choices'', JArr [])]) = Inl IndexError
   \<and> concat (stream_patch json_loads json_dumps [short_frame @ nn @ empty_choices_frame @ nn]) =
       (short_frame @ nn) @ (short_frame @ nn) @ (empty_choices_frame @ nn)"
proof (intro conjI impI)
  assume "patch_events loads dumps (split_nn chunk) = (ys, Some exc)"
  then show "stream_patch loads dumps [chunk] = ys @ [chunk]"
    by (simp add: stream_patch_def patch_chunk_def)
next
  show "json_loads (strip (drop 5 empty_choices_frame)) = Some (JObj [(''choices'', JArr [])])"
    by code_simp
  show "patch_sse_obj (JObj [(''choices'', JArr [])]) = Inl IndexError"
    by code_simp
  show "concat (stream_patch json_loads json_dumps [short_frame @ nn @ empty_choices_frame @ nn]) =
       (short_frame @ nn) @ (short_frame @ nn) @ (empty_choices_frame @ nn)"
    by (simp add: fallback_example)
qed

theorem exception_fallback_duplicates_frames_witness:
  "patch_events json_loads json_dumps (split_nn (short_frame @ nn @ empty_choices_frame @ nn))
     = ([short_frame @ nn], Some IndexError)
   \<and> stream_patch json_loads json_dumps [short_frame @ nn @ empty_choices_frame @ nn]
     = [short_frame @ nn] @ [short_frame @ nn @ empty_choices_frame @ nn]"
proof -
  have h: "patch_events json_loads json_dumps
             (split_nn (short_frame @ nn @ empty_choices_frame @ nn))
           = ([short_frame @ nn], Some IndexError)"
    by code_simp
  from exception_fallback_duplicates_frames
         [of json_loads json_dumps "short_frame @ nn @ empty_choices_frame @ nn"
             "[short_frame @ nn]" IndexError] h
  show ?thesis by blast
qed

end
